theory Spec2Isabelle
  imports Complex_Main "HOL-Library.Log_Nat" "HOL-Library.Multiset"
begin

section \<open>JavaScript numbers\<close>

text \<open>
  The program computes with JavaScript Numbers: IEEE 754 binary64 values. A number is
  modelled as a finite real (the exact value of the double), one of the two infinities,
  or NaN. Every arithmetic operation computes the exact real result and rounds it to the
  nearest double, ties to even, overflowing to an infinity (\<open>rnd\<close>).

  \<open>Math.sqrt\<close> and the reading of a decimal by \<open>Number\<close> round
  correctly, as the engines do.

  The two zeros of IEEE 754 are identified (\<open>Fin 0\<close>). They differ only as divisors;
  a zero divisor is read as \<open>+0\<close>, the only zero the program divides by: its divisors
  are array lengths, positive constants and values derived from \<open>max - min\<close>.
\<close>

datatype jsnum = Fin real | PInf | NInf | NaN

definition pow2 :: "int \<Rightarrow> real" where
  "pow2 k = (if 0 \<le> k then 2 ^ nat k else 1 / 2 ^ nat (- k))"

text \<open>\<open>ilog2 a\<close> is the integer \<open>e\<close> with \<open>2^e \<le> a < 2^(e+1)\<close>, for \<open>a > 0\<close>.\<close>

definition ilog2 :: "real \<Rightarrow> int" where
  "ilog2 a = (if 1 \<le> a then bitlen \<lfloor>a\<rfloor> - 1 else - bitlen (\<lceil>1 / a\<rceil> - 1))"

definition round_even :: "real \<Rightarrow> int" where
  "round_even q =
     (let f = \<lfloor>q\<rfloor> in
      if q - of_int f < 1 / 2 then f
      else if 1 / 2 < q - of_int f then f + 1
      else if even f then f else f + 1)"

text \<open>
  Rounding to binary64: 53 significant bits, the exponent of a normal number at
  least \<open>-1022\<close> (below that the spacing stays \<open>2^-1074\<close>), a rounded magnitude of
  \<open>2^1024\<close> or more is an infinity.
\<close>

definition rnd :: "real \<Rightarrow> jsnum" where
  "rnd x =
     (if x = 0 then Fin 0
      else
        let e = max (ilog2 \<bar>x\<bar>) (- 1022);
            u = pow2 (e - 52);
            y = of_int (round_even (x / u)) * u
        in if 2 ^ 1024 \<le> \<bar>y\<bar> then (if 0 < x then PInf else NInf) else Fin y)"

fun js_neg :: "jsnum \<Rightarrow> jsnum" where
  "js_neg (Fin x) = Fin (- x)"
| "js_neg PInf = NInf"
| "js_neg NInf = PInf"
| "js_neg NaN = NaN"

fun js_add :: "jsnum \<Rightarrow> jsnum \<Rightarrow> jsnum" where
  "js_add NaN _ = NaN"
| "js_add _ NaN = NaN"
| "js_add (Fin x) (Fin y) = rnd (x + y)"
| "js_add PInf NInf = NaN"
| "js_add NInf PInf = NaN"
| "js_add PInf _ = PInf"
| "js_add NInf _ = NInf"
| "js_add (Fin x) PInf = PInf"
| "js_add (Fin x) NInf = NInf"

definition js_sub :: "jsnum \<Rightarrow> jsnum \<Rightarrow> jsnum" where
  "js_sub a b = js_add a (js_neg b)"

text \<open>The sign of a number that is not NaN: \<open>-1\<close>, \<open>0\<close> or \<open>1\<close>.\<close>

fun js_sign :: "jsnum \<Rightarrow> int" where
  "js_sign (Fin x) = (if x < 0 then - 1 else if x = 0 then 0 else 1)"
| "js_sign PInf = 1"
| "js_sign NInf = - 1"
| "js_sign NaN = 0"

definition signed_inf :: "int \<Rightarrow> jsnum" where
  "signed_inf s = (if s < 0 then NInf else PInf)"

fun js_mul :: "jsnum \<Rightarrow> jsnum \<Rightarrow> jsnum" where
  "js_mul NaN _ = NaN"
| "js_mul _ NaN = NaN"
| "js_mul (Fin x) (Fin y) = rnd (x * y)"
| "js_mul a b =
     (if js_sign a = 0 \<or> js_sign b = 0 then NaN else signed_inf (js_sign a * js_sign b))"

fun js_div :: "jsnum \<Rightarrow> jsnum \<Rightarrow> jsnum" where
  "js_div NaN _ = NaN"
| "js_div _ NaN = NaN"
| "js_div (Fin x) (Fin y) =
     (if y = 0 then (if x = 0 then NaN else signed_inf (js_sign (Fin x))) else rnd (x / y))"
| "js_div (Fin x) b = Fin 0"
| "js_div a (Fin y) = signed_inf (js_sign a * (if y < 0 then - 1 else 1))"
| "js_div a b = NaN"

fun is_finite :: "jsnum \<Rightarrow> bool" where
  "is_finite (Fin x) = True"
| "is_finite _ = False"

text \<open>The comparison \<open>a < b\<close> of two numbers; false when either is NaN.\<close>

fun js_less :: "jsnum \<Rightarrow> jsnum \<Rightarrow> bool" where
  "js_less NaN _ = False"
| "js_less _ NaN = False"
| "js_less (Fin x) (Fin y) = (x < y)"
| "js_less (Fin x) PInf = True"
| "js_less (Fin x) NInf = False"
| "js_less PInf _ = False"
| "js_less NInf NInf = False"
| "js_less NInf _ = True"

text \<open>\<open>Math.max(...xs)\<close> and \<open>Math.min(...xs)\<close>: NaN if any argument is NaN.\<close>

definition js_max2 :: "jsnum \<Rightarrow> jsnum \<Rightarrow> jsnum" where
  "js_max2 a b = (if a = NaN \<or> b = NaN then NaN else if js_less a b then b else a)"

definition js_min2 :: "jsnum \<Rightarrow> jsnum \<Rightarrow> jsnum" where
  "js_min2 a b = (if a = NaN \<or> b = NaN then NaN else if js_less b a then b else a)"

definition Math_max :: "jsnum list \<Rightarrow> jsnum" where
  "Math_max xs = foldl js_max2 NInf xs"

definition Math_min :: "jsnum list \<Rightarrow> jsnum" where
  "Math_min xs = foldl js_min2 PInf xs"

fun Math_floor :: "jsnum \<Rightarrow> jsnum" where
  "Math_floor (Fin x) = Fin (of_int \<lfloor>x\<rfloor>)"
| "Math_floor v = v"

fun Math_ceil :: "jsnum \<Rightarrow> jsnum" where
  "Math_ceil (Fin x) = Fin (of_int \<lceil>x\<rceil>)"
| "Math_ceil v = v"

fun Math_sqrt :: "jsnum \<Rightarrow> jsnum" where
  "Math_sqrt (Fin x) = (if x < 0 then NaN else rnd (sqrt x))"
| "Math_sqrt PInf = PInf"
| "Math_sqrt v = NaN"

text \<open>
  \<open>Number(v.toFixed(4))\<close>. \<open>toFixed(4)\<close> prints the integer \<open>n\<close> for which
  \<open>n / 10^4\<close> is closest to the magnitude of \<open>v\<close> (the larger \<open>n\<close> on a tie) with four
  decimals, and the sign; from \<open>10^21\<close> on it prints the number as \<open>String\<close> does, which
  \<open>Number\<close> reads back unchanged. \<open>Number\<close> rounds the decimal to the nearest double.
\<close>

fun Number_toFixed4 :: "jsnum \<Rightarrow> jsnum" where
  "Number_toFixed4 (Fin x) =
     (if 10 ^ 21 \<le> \<bar>x\<bar> then Fin x
      else if x < 0 then js_neg (rnd (of_int \<lfloor>- x * 10 ^ 4 + 1 / 2\<rfloor> / 10 ^ 4))
      else rnd (of_int \<lfloor>x * 10 ^ 4 + 1 / 2\<rfloor> / 10 ^ 4))"
| "Number_toFixed4 v = v"

text \<open>\<open>xs.slice(start, end)\<close>, negative arguments counting from the end.\<close>

definition js_slice :: "'a list \<Rightarrow> int \<Rightarrow> int \<Rightarrow> 'a list" where
  "js_slice xs start final =
     (let len = int (length xs);
          k = (if start < 0 then max (len + start) 0 else min start len);
          fin = (if final < 0 then max (len + final) 0 else min final len)
      in take (nat (fin - k)) (drop (nat k) xs))"

datatype js_error = TypeError | RangeError

section \<open>The data of the analysis\<close>

text \<open>
  An inspection record as \<open>handleAnalyze\<close> reads it: the three fields hold the numbers
  that \<open>parseFloat\<close> returns for the record's strings.
\<close>

record InspectionData =
  ActualSpecification :: jsnum
  FromSpecification :: jsnum
  ToSpecification :: jsnum

record Subgroup =
  mean :: jsnum
  range_sg :: jsnum

record ControlConstants =
  A2 :: jsnum
  D3 :: jsnum
  D4 :: jsnum

record Limits =
  xBarUcl :: jsnum
  xBarLcl :: jsnum
  xBarMean :: jsnum
  rangeUcl :: jsnum
  rangeLcl :: jsnum
  rangeMean :: jsnum

record Metrics =
  xBar :: jsnum
  stdDevOverall :: jsnum
  stdDevWithin :: jsnum
  movingRange :: jsnum
  cp :: jsnum
  cpkUpper :: jsnum
  cpkLower :: jsnum
  cpk :: jsnum
  pp :: jsnum
  ppu :: jsnum
  ppl :: jsnum
  ppk :: jsnum
  lsl :: jsnum
  usl :: jsnum

text \<open>A chart point \<open>{x, y}\<close> is a pair.\<close>

record ControlChartsData =
  xBarData :: "(jsnum \<times> jsnum) list"
  rangeData :: "(jsnum \<times> jsnum) list"
  limits :: Limits

record Stats =
  mean_stats :: jsnum
  stdDev :: jsnum
  target :: jsnum

text \<open>A histogram bin \<open>{x, y}\<close> is a pair of the bin's centre and its count.\<close>

record DistributionData =
  data :: "(jsnum \<times> nat) list"
  numberOfBins :: jsnum

record Distribution = DistributionData +
  stats :: Stats

record Analysis =
  metrics :: Metrics
  controlCharts :: ControlChartsData
  distribution :: Distribution

section \<open>calculateSubgroups\<close>

text \<open>
  The \<open>for\<close> loop of \<open>calculateSubgroups\<close>, with its index \<open>i\<close> and the array
  \<open>subgroups\<close> built so far. \<open>None\<close> is a run that returns no array. With a negative
  size and data the loop never ends: no slice has a negative length, nothing is pushed, and
  the index stays below the length of the data.

  With size \<open>0\<close> and data every iteration pushes a subgroup, and the source ends
  abnormally when the array or the memory is full. A list has no such limit, so the
  result is \<open>None\<close> there as well; how that run ends is not modelled, and no statement
  below says how it ends.
\<close>

definition mk_subgroup :: "jsnum list \<Rightarrow> int \<Rightarrow> Subgroup" where
  "mk_subgroup subgroup sz =
     \<lparr>mean = js_div (foldl js_add (Fin 0) subgroup) (Fin (of_int sz)),
      range_sg = js_sub (Math_max subgroup) (Math_min subgroup)\<rparr>"

partial_function (option) calculateSubgroups_loop ::
  "jsnum list \<Rightarrow> int \<Rightarrow> int \<Rightarrow> Subgroup list \<Rightarrow> Subgroup list option" where
  "calculateSubgroups_loop dat sz i subgroups =
     (if i < int (length dat) then
        calculateSubgroups_loop dat sz (i + sz)
          (if int (length (js_slice dat i (i + sz))) = sz
           then subgroups @ [mk_subgroup (js_slice dat i (i + sz)) sz]
           else subgroups)
      else Some subgroups)"

definition calculateSubgroups :: "jsnum list \<Rightarrow> int \<Rightarrow> Subgroup list option" where
  "calculateSubgroups dat sz = calculateSubgroups_loop dat sz 0 []"

section \<open>calculateDistributionData\<close>

text \<open>
  \<open>new Array(n).fill(0)\<close> raises a RangeError unless \<open>n\<close> is an integer from \<open>0\<close> to
  \<open>2^32 - 1\<close>. The counts are natural numbers (they stay far below \<open>2^53\<close>, where
  \<open>++\<close> is exact).
\<close>

definition new_Array :: "jsnum \<Rightarrow> js_error + nat list" where
  "new_Array n =
     (case n of
        Fin k \<Rightarrow>
          if k = of_int \<lfloor>k\<rfloor> \<and> 0 \<le> k \<and> k < 2 ^ 32 then Inr (replicate (nat \<lfloor>k\<rfloor>) 0)
          else Inl RangeError
      | _ \<Rightarrow> Inl RangeError)"

text \<open>
  \<open>binCounts[binIndex]++\<close>. An index that is no element index (NaN, a negative number)
  names a plain property of the array object: the statement then sets that property and
  leaves every element as it is, and neither \<open>map\<close> nor the result sees the property.
  The index is at most \<open>numberOfBins - 1\<close>, so the array never grows.
\<close>

definition increment :: "nat list \<Rightarrow> jsnum \<Rightarrow> nat list" where
  "increment binCounts binIndex =
     (case binIndex of
        Fin k \<Rightarrow>
          if k = of_int \<lfloor>k\<rfloor> \<and> 0 \<le> k \<and> k < of_nat (length binCounts)
          then binCounts[nat \<lfloor>k\<rfloor> := Suc (binCounts ! nat \<lfloor>k\<rfloor>)]
          else binCounts
      | _ \<Rightarrow> binCounts)"

definition binIndex_of :: "jsnum \<Rightarrow> jsnum \<Rightarrow> jsnum \<Rightarrow> jsnum \<Rightarrow> jsnum" where
  "binIndex_of spec mn binWidth nBins =
     Math_min [Math_floor (js_div (js_sub spec mn) binWidth), js_sub nBins (Fin 1)]"

definition calculateDistributionData :: "jsnum list \<Rightarrow> js_error + DistributionData" where
  "calculateDistributionData specifications =
     (let nBins = Math_ceil (Math_sqrt (Fin (of_nat (length specifications))));
          mn = Math_min specifications;
          mx = Math_max specifications;
          binWidth = js_div (js_sub mx mn) nBins
      in case new_Array nBins of
           Inl e \<Rightarrow> Inl e
         | Inr zeros \<Rightarrow>
             let binCounts =
                   foldl (\<lambda>counts spec. increment counts (binIndex_of spec mn binWidth nBins))
                     zeros specifications
             in Inr \<lparr>data =
                       map (\<lambda>(count, i).
                              (js_add (js_add mn (js_mul (Fin (of_nat i)) binWidth))
                                 (js_div binWidth (Fin 2)),
                               count))
                         (zip binCounts [0..<length binCounts]),
                     numberOfBins = nBins\<rparr>)"

section \<open>handleAnalyze\<close>

text \<open>The table \<open>constants\<close> of \<open>handleAnalyze\<close>; a decimal literal is its nearest double.\<close>

definition constants :: "int \<Rightarrow> ControlConstants option" where
  "constants n =
     (if n = 1 then Some \<lparr>A2 = rnd 1.880, D3 = Fin 0, D4 = rnd 3.267\<rparr>
      else if n = 2 then Some \<lparr>A2 = rnd 1.023, D3 = Fin 0, D4 = rnd 3.267\<rparr>
      else if n = 3 then Some \<lparr>A2 = rnd 0.729, D3 = Fin 0, D4 = rnd 2.575\<rparr>
      else if n = 4 then Some \<lparr>A2 = rnd 0.577, D3 = Fin 0, D4 = rnd 2.282\<rparr>
      else if n = 5 then Some \<lparr>A2 = rnd 0.483, D3 = Fin 0, D4 = rnd 2.115\<rparr>
      else None)"

text \<open>
  The chart component \<open>ControlCharts\<close> looks its constants up in a table of its own
  (the same \<open>A2\<close>, \<open>D3\<close>, \<open>D4\<close>) and takes the entry of size 1 for any other size:
  \<open>constants[sampleSize] || constants[1]\<close>.
\<close>

definition ControlCharts_constants :: "int \<Rightarrow> ControlConstants" where
  "ControlCharts_constants sampleSize =
     (case constants sampleSize of
        Some c \<Rightarrow> c
      | None \<Rightarrow> \<lparr>A2 = rnd 1.880, D3 = Fin 0, D4 = rnd 3.267\<rparr>)"

text \<open>
  The body of \<open>handleAnalyze\<close> from \<open>filteredData\<close> on, in the order of the source.
  \<open>subgroupsMean\<close> and \<open>subgroupsRangeMean\<close> are its variables \<open>mean\<close> and
  \<open>rangeMean\<close>; \<open>controlLimits\<close> is the object \<open>limits\<close> of the result, computed from
  the constants and the subgroups; \<open>estimate_stdDev\<close> is the variable \<open>stdDev\<close>, and
  \<open>capabilityMetrics\<close> the object \<open>metrics\<close>.
\<close>

definition subgroupsMean :: "Subgroup list \<Rightarrow> jsnum" where
  "subgroupsMean subgroups =
     js_div (foldl (\<lambda>a b. js_add a (mean b)) (Fin 0) subgroups)
       (Fin (of_nat (length subgroups)))"

definition subgroupsRangeMean :: "Subgroup list \<Rightarrow> jsnum" where
  "subgroupsRangeMean subgroups =
     js_div (foldl (\<lambda>a b. js_add a (range_sg b)) (Fin 0) subgroups)
       (Fin (of_nat (length subgroups)))"

definition controlLimits :: "ControlConstants \<Rightarrow> Subgroup list \<Rightarrow> Limits" where
  "controlLimits c subgroups =
     (let m = subgroupsMean subgroups;
          rm = subgroupsRangeMean subgroups;
          ucl = js_add m (js_mul (A2 c) rm);
          lcl = js_sub m (js_mul (A2 c) rm);
          r_ucl = js_mul (D4 c) rm;
          r_lcl = js_mul (D3 c) rm
      in \<lparr>xBarUcl = Number_toFixed4 ucl,
          xBarLcl = Number_toFixed4 lcl,
          xBarMean = Number_toFixed4 m,
          rangeUcl = Number_toFixed4 r_ucl,
          rangeLcl = Number_toFixed4 r_lcl,
          rangeMean = Number_toFixed4 rm\<rparr>)"

definition estimate_stdDev :: "int \<Rightarrow> jsnum \<Rightarrow> jsnum" where
  "estimate_stdDev sampleSize rm =
     js_div rm (if sampleSize = 1 then rnd 1.128 else Math_sqrt (Fin (of_int sampleSize)))"

definition capabilityMetrics :: "int \<Rightarrow> jsnum \<Rightarrow> jsnum \<Rightarrow> jsnum \<Rightarrow> jsnum \<Rightarrow> Metrics" where
  "capabilityMetrics sampleSize m rm l u =
     (let sd = estimate_stdDev sampleSize rm;
          cp_v = js_div (js_sub u l) (js_mul (Fin 6) sd);
          cpu = js_div (js_sub u m) (js_mul (Fin 3) sd);
          cpl = js_div (js_sub m l) (js_mul (Fin 3) sd);
          cpk_v = Math_min [cpu, cpl]
      in \<lparr>xBar = Number_toFixed4 m,
          stdDevOverall = Number_toFixed4 sd,
          stdDevWithin = Number_toFixed4 sd,
          movingRange = Number_toFixed4 rm,
          cp = Number_toFixed4 cp_v,
          cpkUpper = Number_toFixed4 cpu,
          cpkLower = Number_toFixed4 cpl,
          cpk = Number_toFixed4 cpk_v,
          pp = Number_toFixed4 cp_v,
          ppu = Number_toFixed4 cpu,
          ppl = Number_toFixed4 cpl,
          ppk = Number_toFixed4 cpk_v,
          lsl = Number_toFixed4 l,
          usl = Number_toFixed4 u\<rparr>)"

definition chart_points :: "jsnum list \<Rightarrow> (jsnum \<times> jsnum) list" where
  "chart_points ys = map (\<lambda>(v, i). (Fin (of_nat (i + 1)), v)) (zip ys [0..<length ys])"

text \<open>
  Destructuring \<open>constants[sampleSize]\<close> when the table has no such entry, and
  reading a field of \<open>filteredData[0]\<close> when there is no record, raise a TypeError.
\<close>

definition analysis_body :: "InspectionData list \<Rightarrow> int \<Rightarrow> Subgroup list \<Rightarrow> js_error + Analysis" where
  "analysis_body filteredData sampleSize subgroups =
     (let specifications = map ActualSpecification filteredData in
      case constants sampleSize of
        None \<Rightarrow> Inl TypeError
      | Some c \<Rightarrow>
          (case filteredData of
             [] \<Rightarrow> Inl TypeError
           | d # _ \<Rightarrow>
               let m = subgroupsMean subgroups;
                   rm = subgroupsRangeMean subgroups;
                   u = ToSpecification d;
                   l = FromSpecification d
               in case calculateDistributionData specifications of
                    Inl e \<Rightarrow> Inl e
                  | Inr dd \<Rightarrow>
                      Inr \<lparr>metrics = capabilityMetrics sampleSize m rm l u,
                           controlCharts =
                             \<lparr>xBarData = chart_points (map mean subgroups),
                              rangeData = chart_points (map range_sg subgroups),
                              limits = controlLimits c subgroups\<rparr>,
                           distribution =
                             \<lparr>data = data dd,
                              numberOfBins = numberOfBins dd,
                              stats =
                                \<lparr>mean_stats = Number_toFixed4 m,
                                 stdDev = Number_toFixed4 (estimate_stdDev sampleSize rm),
                                 target = Number_toFixed4 (js_div (js_add u l) (Fin 2))\<rparr>\<rparr>\<rparr>))"

text \<open>
  \<open>handleAnalyze\<close>: \<open>None\<close> when the subgrouping returns no array; otherwise what the
  handler stores, the analysis (\<open>setAnalysisData\<close>) or, when the body raised an error,
  the message of its \<open>catch\<close> branch (\<open>setError\<close>).
\<close>

definition handleAnalyze :: "InspectionData list \<Rightarrow> int \<Rightarrow> (string + Analysis) option" where
  "handleAnalyze filteredData sampleSize =
     (case calculateSubgroups (map ActualSpecification filteredData) sampleSize of
        None \<Rightarrow> None
      | Some subgroups \<Rightarrow>
          Some (case analysis_body filteredData sampleSize subgroups of
                  Inl e \<Rightarrow> Inl ''Error analyzing data''
                | Inr a \<Rightarrow> Inr a))"

text \<open>The sample size the screen starts with: \<open>useState(1)\<close>.\<close>

definition initial_sampleSize :: int where
  "initial_sampleSize = 1"

section \<open>The specification's subgrouping\<close>

text \<open>
  The complete windows of \<open>n\<close> consecutive elements of \<open>xs\<close>, from index \<open>0\<close> on,
  in the order of \<open>xs\<close>: window \<open>k\<close> holds the elements \<open>k * n, \<dots>, k * n + n - 1\<close>,
  and there are \<open>length xs div n\<close> of them.
\<close>

definition windows :: "'a list \<Rightarrow> nat \<Rightarrow> 'a list list" where
  "windows xs n = map (\<lambda>k. take n (drop (k * n) xs)) [0..<length xs div n]"

text \<open>The subgroups of the complete windows: what \<open>calculateSubgroups\<close> returns.\<close>

definition subgroups_of :: "jsnum list \<Rightarrow> int \<Rightarrow> Subgroup list" where
  "subgroups_of dat sz = map (\<lambda>w. mk_subgroup w sz) (windows dat (nat sz))"

text \<open>
  The specification's \<open>d2\<close>: \<open>1.128\<close> for size 1, the square root of the size
  otherwise.
\<close>

definition d2_spec :: "int \<Rightarrow> jsnum" where
  "d2_spec sz = (if sz = 1 then rnd 1.128 else Math_sqrt (Fin (of_int sz)))"

text \<open>
  \<open>exact_sum a vs\<close>: adding the numbers \<open>vs\<close> to \<open>a\<close> from left to right, every number
  is finite and no addition is rounded. \<open>fin_val\<close> is the value of a finite number.
\<close>

fun fin_val :: "jsnum \<Rightarrow> real" where
  "fin_val (Fin x) = x"
| "fin_val v = 0"

fun exact_sum :: "real \<Rightarrow> jsnum list \<Rightarrow> bool" where
  "exact_sum a [] = True"
| "exact_sum a (Fin v # vs) = (rnd (a + v) = Fin (a + v) \<and> exact_sum (a + v) vs)"
| "exact_sum a (v # vs) = False"

text \<open>An inspection record whose three numbers are finite.\<close>

definition inspection :: "real \<Rightarrow> real \<Rightarrow> real \<Rightarrow> InspectionData" where
  "inspection v l u =
     \<lparr>ActualSpecification = Fin v, FromSpecification = Fin l, ToSpecification = Fin u\<rparr>"

section \<open>Rounding to a double\<close>

lemma pow2_powr: "pow2 k = 2 powr (of_int k)"
proof (cases "0 \<le> k")
  case True
  then have "(2::real) powr (of_int k) = 2 ^ nat k"
    by (metis of_nat_nat powr_realpow zero_less_numeral)
  then show ?thesis using True by (simp add: pow2_def)
next
  case False
  then show ?thesis by (simp add: pow2_def powr_int)
qed

lemma pow2_pos: "0 < pow2 k"
  by (simp add: pow2_powr)

lemma pow2_add: "pow2 (a + b) = pow2 a * pow2 b"
  by (simp add: pow2_powr powr_add)

lemma pow2_mono: "a \<le> b \<Longrightarrow> pow2 a \<le> pow2 b"
  by (simp add: pow2_powr)

lemma pow2_less_iff: "pow2 a < pow2 b \<longleftrightarrow> a < b"
  by (simp add: pow2_powr)

lemma pow2_neg: "pow2 (- k) = 1 / pow2 k"
  by (simp add: pow2_powr powr_minus_divide)

lemma pow2_int: "0 \<le> k \<Longrightarrow> pow2 k = of_int (2 ^ nat k)"
  by (simp add: pow2_def)

lemma bitlen_eq:
  assumes "0 \<le> k" "2 ^ nat k \<le> n" "n < 2 ^ nat (k + 1)"
  shows "bitlen n = k + 1"
proof -
  have npos: "0 < n" using assms(2) by (smt (verit) zero_less_power)
  have "pow2 k \<le> real_of_int n"
    using assms(1,2) by (simp only: pow2_int of_int_le_iff)
  then have lo: "2 powr (of_int k) \<le> real_of_int n" by (simp add: pow2_powr)
  have "real_of_int n < pow2 (k + 1)"
    using assms(1,3) by (simp only: pow2_int of_int_less_iff)
  then have hi: "real_of_int n < 2 powr (of_int k + 1)" by (simp add: pow2_powr)
  have "\<lfloor>log 2 (real_of_int n)\<rfloor> = k"
    using lo hi npos floor_log_eq_powr_iff [of "of_int n" 2 k] by simp
  then show ?thesis using npos by (simp add: bitlen_alt_def)
qed

lemma ilog2_eq:
  assumes "pow2 e \<le> a" "a < pow2 (e + 1)"
  shows "ilog2 a = e"
proof (cases "1 \<le> a")
  case True
  have "pow2 0 < pow2 (e + 1)" using True assms(2) by (simp add: pow2_def)
  then have e0: "0 \<le> e" by (simp add: pow2_less_iff)
  have "of_int (2 ^ nat e) \<le> a" using assms(1) e0 by (simp only: pow2_int)
  then have lo: "2 ^ nat e \<le> \<lfloor>a\<rfloor>" by (simp only: le_floor_iff)
  have "of_int \<lfloor>a\<rfloor> < pow2 (e + 1)"
    using assms(2) of_int_floor_le [of a] by linarith
  then have "of_int \<lfloor>a\<rfloor> < (of_int (2 ^ nat (e + 1)) :: real)"
    using e0 by (simp only: pow2_int)
  then have hi: "\<lfloor>a\<rfloor> < 2 ^ nat (e + 1)" by (simp only: of_int_less_iff)
  show ?thesis using True bitlen_eq [OF e0 lo hi] by (simp add: ilog2_def)
next
  case False
  have apos: "0 < a" using assms(1) pow2_pos [of e] by linarith
  have "pow2 e < pow2 0" using False assms(1) by (simp add: pow2_def)
  then have e0: "e < 0" by (simp add: pow2_less_iff)
  let ?c = "\<lceil>1 / a\<rceil>"
  let ?k = "- e - 1"
  have k0: "0 \<le> ?k" using e0 by simp
  have "1 / a \<le> 1 / pow2 e"
    using assms(1) pow2_pos [of e] by (simp add: frac_le)
  then have inv_hi: "1 / a \<le> of_int (2 ^ nat (?k + 1))"
    using pow2_neg [of e] pow2_int [of "- e"] e0 by simp
  have "1 / pow2 (e + 1) < 1 / a"
    using assms(2) apos by (simp add: frac_less2)
  then have inv_lo: "of_int (2 ^ nat ?k) < 1 / a"
    using pow2_neg [of "e + 1"] pow2_int [of ?k] k0 by simp
  have chi: "?c \<le> 2 ^ nat (?k + 1)" using inv_hi by (simp only: ceiling_le_iff)
  have clo: "2 ^ nat ?k < ?c" using inv_lo by (simp only: less_ceiling_iff)
  have lo: "2 ^ nat ?k \<le> ?c - 1" using clo by simp
  have hi: "?c - 1 < 2 ^ nat (?k + 1)" using chi by simp
  show ?thesis using False bitlen_eq [OF k0 lo hi] by (simp add: ilog2_def)
qed

lemma ilog2_bounds:
  assumes "0 < a"
  shows "pow2 (ilog2 a) \<le> a \<and> a < pow2 (ilog2 a + 1)"
proof -
  let ?e = "\<lfloor>log 2 a\<rfloor>"
  have "2 powr (of_int ?e) \<le> a \<and> a < 2 powr (of_int ?e + 1)"
    using assms floor_log_eq_powr_iff [of a 2 ?e] by simp
  then have b: "pow2 ?e \<le> a \<and> a < pow2 (?e + 1)" by (simp add: pow2_powr)
  then have "ilog2 a = ?e" using ilog2_eq by blast
  then show ?thesis using b by simp
qed

lemma round_even_bounds: "of_int (round_even q) \<le> q + 1 / 2 \<and> q - 1 / 2 \<le> of_int (round_even q)"
  unfolding round_even_def Let_def by (auto; linarith)

lemma round_even_abs:
  assumes "\<bar>q\<bar> < of_int n"
  shows "\<bar>round_even q\<bar> \<le> n"
proof -
  have "of_int (round_even q) < (of_int n :: real) + 1" "- (of_int n :: real) - 1 < of_int (round_even q)"
    using round_even_bounds [of q] assms by linarith+
  then have "round_even q < n + 1" "- n - 1 < round_even q"
    by linarith+
  then show ?thesis by linarith
qed

lemma rnd_normal:
  assumes "x \<noteq> 0" "- 1022 \<le> ilog2 \<bar>x\<bar>" "ilog2 \<bar>x\<bar> \<le> 1022"
  shows "rnd x = Fin (of_int (round_even (x / pow2 (ilog2 \<bar>x\<bar> - 52))) * pow2 (ilog2 \<bar>x\<bar> - 52))"
proof -
  let ?e = "ilog2 \<bar>x\<bar>"
  let ?u = "pow2 (?e - 52)"
  let ?m = "round_even (x / ?u)"
  have upos: "0 < ?u" by (rule pow2_pos)
  have "\<bar>x\<bar> < pow2 (?e + 1)" using ilog2_bounds [of "\<bar>x\<bar>"] assms(1) by simp
  also have "pow2 (?e + 1) = pow2 53 * ?u" by (simp add: pow2_add [symmetric] add.commute)
  finally have "\<bar>x / ?u\<bar> < pow2 53" using upos by (simp add: pos_divide_less_eq)
  then have "\<bar>x / ?u\<bar> < of_int (2 ^ 53)" by (simp add: pow2_def)
  then have "\<bar>?m\<bar> \<le> 2 ^ 53" by (rule round_even_abs)
  then have "\<bar>of_int ?m :: real\<bar> \<le> pow2 53" 
    by (metis pow2_int [of 53] of_int_le_iff of_int_abs nat_numeral zero_le_numeral)
  then have "\<bar>of_int ?m * ?u\<bar> \<le> pow2 53 * ?u"
    using upos by (simp add: abs_mult)
  also have "pow2 53 * ?u = pow2 (?e + 1)" by (simp add: pow2_add [symmetric] add.commute)
  also have "\<dots> \<le> pow2 1023" using assms(3) by (intro pow2_mono) simp
  also have "\<dots> < 2 ^ 1024" by (simp add: pow2_def)
  finally have "\<not> 2 ^ 1024 \<le> \<bar>of_int ?m * ?u\<bar>" by simp
  then show ?thesis using assms(1,2) by (simp add: rnd_def Let_def max_def)
qed

lemmas rnd_eval = rnd_normal ilog2_def compute_bitlen pow2_def round_even_def Let_def

lemma rnd_zero: "rnd 0 = Fin 0"
  by (simp add: rnd_def)

lemma round_even_of_int: "round_even (of_int k) = k"
  by (simp add: round_even_def)

lemma round_even_le: "q \<le> of_int N \<Longrightarrow> round_even q \<le> N"
  using round_even_bounds [of q] by linarith

lemma round_even_ge: "of_int N \<le> q \<Longrightarrow> N \<le> round_even q"
  using round_even_bounds [of q] by linarith

lemma rnd_overflow:
  assumes "2 ^ 1024 \<le> \<bar>x\<bar>"
  shows "rnd x = (if 0 < x then PInf else NInf)"
proof -
  let ?e = "ilog2 \<bar>x\<bar>"
  let ?u = "pow2 (?e - 52)"
  let ?m = "round_even (x / ?u)"
  have x0: "x \<noteq> 0" "0 < \<bar>x\<bar>" using assms by auto
  have b: "pow2 ?e \<le> \<bar>x\<bar>" "\<bar>x\<bar> < pow2 (?e + 1)"
    using ilog2_bounds [OF x0(2)] by simp_all
  have p: "pow2 1024 = 2 ^ 1024" by (simp add: pow2_def)
  have "pow2 1024 < pow2 (?e + 1)" using assms b(2) p by linarith
  then have e: "1024 \<le> ?e" by (simp add: pow2_less_iff)
  have upos: "0 < ?u" by (rule pow2_pos)
  have split: "pow2 ?e = pow2 52 * ?u" by (simp add: pow2_add [symmetric])
  have p52: "pow2 52 = of_int (2 ^ 52)" by (simp add: pow2_def)
  have "pow2 52 \<le> \<bar>x\<bar> / ?u" using b(1) upos by (simp add: split pos_le_divide_eq)
  then have q: "of_int (2 ^ 52) \<le> \<bar>x / ?u\<bar>" using upos by (simp add: p52)
  have "2 ^ 52 \<le> \<bar>?m\<bar>"
  proof (cases "0 \<le> x / ?u")
    case True
    then have "of_int (2 ^ 52) \<le> x / ?u" using q by simp
    then have "2 ^ 52 \<le> ?m" by (rule round_even_ge)
    then show ?thesis by simp
  next
    case False
    then have "x / ?u \<le> of_int (- (2 ^ 52))" using q by simp
    then have "?m \<le> - (2 ^ 52)" by (rule round_even_le)
    then show ?thesis by simp
  qed
  then have "(of_int (2 ^ 52) :: real) \<le> \<bar>of_int ?m\<bar>"
    by (metis of_int_abs of_int_le_iff)
  then have "pow2 52 * ?u \<le> \<bar>of_int ?m\<bar> * ?u"
    using upos by (simp add: p52)
  then have "pow2 ?e \<le> \<bar>of_int ?m * ?u\<bar>"
    using upos by (simp add: split abs_mult)
  moreover have "pow2 1024 \<le> pow2 ?e" using e by (rule pow2_mono)
  ultimately have "2 ^ 1024 \<le> \<bar>of_int ?m * ?u\<bar>" using p by linarith
  moreover have "max ?e (- 1022) = ?e" using e by simp
  ultimately show ?thesis using x0(1) by (simp add: rnd_def Let_def)
qed

lemma rnd_representable:
  assumes "\<bar>m\<bar> < 2 ^ 53" "- 1074 \<le> k" "k \<le> 971"
  shows "rnd (of_int m * pow2 k) = Fin (of_int m * pow2 k)"
proof (cases "m = 0")
  case True
  then show ?thesis by (simp add: rnd_zero)
next
  case False
  let ?x = "of_int m * pow2 k :: real"
  let ?e = "max (ilog2 \<bar>?x\<bar>) (- 1022)"
  let ?u = "pow2 (?e - 52)"
  have x0: "?x \<noteq> 0" "0 < \<bar>?x\<bar>" using False pow2_pos [of k] by simp_all
  have "\<bar>of_int m :: real\<bar> < of_int (2 ^ 53)"
    using assms(1) by (metis of_int_abs of_int_less_iff)
  then have "\<bar>of_int m :: real\<bar> < pow2 53" by (simp add: pow2_def)
  then have lt: "\<bar>?x\<bar> < pow2 (53 + k)"
    using pow2_pos [of k] by (simp add: abs_mult pow2_add)
  have "pow2 (ilog2 \<bar>?x\<bar>) \<le> \<bar>?x\<bar>" using ilog2_bounds [OF x0(2)] by simp
  then have "pow2 (ilog2 \<bar>?x\<bar>) < pow2 (53 + k)" using lt by linarith
  then have "ilog2 \<bar>?x\<bar> < 53 + k" by (simp add: pow2_less_iff)
  then have e: "?e \<le> k + 52" using assms(2) by simp
  let ?j = "k + 52 - ?e"
  have j0: "0 \<le> ?j" using e by simp
  have "pow2 k = pow2 ?j * ?u" by (simp add: pow2_add [symmetric])
  then have xu: "?x = of_int (m * 2 ^ nat ?j) * ?u"
    using pow2_int [OF j0] by simp
  have upos: "0 < ?u" by (rule pow2_pos)
  have "?x / ?u = of_int (m * 2 ^ nat ?j)"
    using upos by (subst xu) simp
  then have m: "round_even (?x / ?u) = m * 2 ^ nat ?j"
    by (simp only: round_even_of_int)
  have "pow2 (53 + k) \<le> pow2 1024" using assms(3) by (intro pow2_mono) simp
  also have "\<dots> = 2 ^ 1024" by (simp add: pow2_def)
  finally have small: "\<not> 2 ^ 1024 \<le> \<bar>?x\<bar>" using lt by simp
  have yx: "of_int (round_even (?x / ?u)) * ?u = ?x"
    using xu by (simp only: m)
  have "rnd ?x =
        (if 2 ^ 1024 \<le> \<bar>of_int (round_even (?x / ?u)) * ?u\<bar>
         then (if 0 < ?x then PInf else NInf)
         else Fin (of_int (round_even (?x / ?u)) * ?u))"
    using x0(1) by (simp only: rnd_def Let_def if_False)
  then show ?thesis using small by (simp only: yx if_False)
qed

lemmas js_eval = rnd_zero rnd_eval js_sub_def Math_max_def Math_min_def js_max2_def js_min2_def

lemma rnd_2_1023: "rnd (2 ^ 1023) = Fin (2 ^ 1023)"
  using rnd_representable [of "2 ^ 52" 971] by (simp add: pow2_def)

lemma rnd_2_1024: "rnd (2 ^ 1024) = PInf"
  using rnd_overflow [of "2 ^ 1024"] by simp

section \<open>Subgrouping\<close>

lemma js_slice_window:
  assumes "0 < n" "i < length xs"
  shows "js_slice xs (int i) (int i + int n) = take n (drop i xs)"
proof -
  have "take (nat (min (int i + int n) (int (length xs)) - int i)) (drop i xs)
        = take n (drop i xs)"
  proof (cases "i + n \<le> length xs")
    case True
    then have "min (int i + int n) (int (length xs)) = int i + int n" by simp
    then show ?thesis by simp
  next
    case False
    then have "min (int i + int n) (int (length xs)) = int (length xs)" by simp
    then have "nat (min (int i + int n) (int (length xs)) - int i) = length xs - i"
      by simp
    moreover have "length (drop i xs) \<le> n" using False by simp
    ultimately show ?thesis by simp
  qed
  then show ?thesis using assms by (simp add: js_slice_def Let_def min_def)
qed

lemma div_le_imp_mult_le: "0 < n \<Longrightarrow> j \<le> m div n \<Longrightarrow> j * n \<le> (m::nat)"
  using div_times_less_eq_dividend [of m n] mult_le_mono1 [of j "m div n" n] by linarith

lemma div_less_imp_less_mult: "0 < n \<Longrightarrow> m div n < j \<Longrightarrow> (m::nat) < j * n"
  by (metis div_less_iff_less_mult mult.commute)

lemma calculateSubgroups_loop_windows:
  assumes "0 < n" "i = j * n"
  shows "calculateSubgroups_loop dat (int n) (int i) acc =
         Some (acc @ map (\<lambda>k. mk_subgroup (take n (drop (k * n) dat)) (int n)) [j..<length dat div n])"
  using assms(2)
proof (induction "Suc (length dat div n) - j" arbitrary: i j acc)
  case 0
  then have j: "length dat div n < j" by simp
  then have "length dat < i"
    using assms(1) 0 div_less_imp_less_mult by blast
  then show ?case using j by (subst calculateSubgroups_loop.simps) simp
next
  case (Suc d)
  show ?case
  proof (cases "i < length dat")
    case False
    then have "\<not> j * n < length dat" using Suc by simp
    then have "length dat div n \<le> j"
      using assms(1) by (metis div_le_mono div_mult_self_is_m not_less)
    then show ?thesis using False by (subst calculateSubgroups_loop.simps) simp
  next
    case True
    have next_i: "int i + int n = int (i + n)" by simp
    have IH: "calculateSubgroups_loop dat (int n) (int (i + n)) acc' =
         Some (acc' @ map (\<lambda>k. mk_subgroup (take n (drop (k * n) dat)) (int n)) [Suc j..<length dat div n])" for acc'
      using Suc(1) [of "Suc j" "i + n" acc'] Suc(2,3) by simp
    have sl: "js_slice dat (int i) (int (i + n)) = take n (drop i dat)"
      using js_slice_window [OF assms(1) True] by simp
    have cond: "int i < int (length dat)" using True by simp
    show ?thesis
    proof (cases "j < length dat div n")
      case True
      then have "Suc j * n \<le> length dat"
        using assms(1) div_le_imp_mult_le [of n "Suc j" "length dat"] by simp
      then have len: "int (length (take n (drop i dat))) = int n" using Suc(3) by simp
      have up: "[j..<length dat div n] = j # [Suc j..<length dat div n]"
        using True by (simp add: upt_conv_Cons)
      show ?thesis
        by (subst calculateSubgroups_loop.simps)
           (simp only: cond if_True next_i sl len IH up, simp add: Suc(3))
    next
      case False
      then have "length dat < Suc j * n"
        using assms(1) div_less_imp_less_mult [of n "length dat" "Suc j"] by simp
      then have len: "int (length (take n (drop i dat))) \<noteq> int n"
        using Suc(3) assms(1) by auto
      have up: "[j..<length dat div n] = []" "[Suc j..<length dat div n] = []"
        using False by simp_all
      show ?thesis
        by (subst calculateSubgroups_loop.simps)
           (simp only: cond if_True next_i sl len if_False IH up append_Nil2 list.map)
    qed
  qed
qed

lemma calculateSubgroups_windows:
  assumes "1 \<le> sz"
  shows "calculateSubgroups dat sz = Some (map (\<lambda>w. mk_subgroup w sz) (windows dat (nat sz)))"
proof -
  obtain n where n: "sz = int n" "0 < n"
    using assms by (cases sz) auto
  show ?thesis
    using calculateSubgroups_loop_windows [OF n(2), of 0 0 dat "[]"]
    by (simp add: calculateSubgroups_def windows_def n(1) comp_def)
qed

lemma concat_windows_upto:
  "d \<le> length xs div n \<Longrightarrow>
   concat (map (\<lambda>k. take n (drop (k * n) xs)) [0..<d]) = take (d * n) xs"
proof (induction d)
  case 0
  then show ?case by simp
next
  case (Suc d)
  then have "concat (map (\<lambda>k. take n (drop (k * n) xs)) [0..<d]) = take (d * n) xs" by simp
  moreover have "take (Suc d * n) xs = take (d * n) xs @ take n (drop (d * n) xs)"
    using take_add [of "d * n" n xs] by (simp add: add.commute)
  ultimately show ?case by simp
qed

lemma length_window:
  assumes "0 < n" "k < length xs div n"
  shows "length (take n (drop (k * n) xs)) = n"
proof -
  have "Suc k * n \<le> length xs"
    using assms div_le_imp_mult_le [of n "Suc k" "length xs"] by simp
  then show ?thesis by simp
qed

lemma js_max2_Fin: "js_max2 (Fin a) (Fin b) = Fin (max a b)"
  by (simp add: js_max2_def max_def)

lemma js_min2_Fin: "js_min2 (Fin a) (Fin b) = Fin (min a b)"
  by (simp add: js_min2_def min_def)

lemma foldl_js_max2_Fin: "foldl js_max2 (Fin a) (map Fin vs) = Fin (Max (insert a (set vs)))"
proof (induction vs arbitrary: a)
  case Nil
  then show ?case by simp
next
  case (Cons v vs)
  have "Max (insert (max a v) (set vs)) = Max (insert a (insert v (set vs)))"
    by (cases "set vs = {}") (simp_all add: max.assoc)
  then show ?case using Cons by (simp add: js_max2_Fin)
qed

lemma foldl_js_min2_Fin: "foldl js_min2 (Fin a) (map Fin vs) = Fin (Min (insert a (set vs)))"
proof (induction vs arbitrary: a)
  case Nil
  then show ?case by simp
next
  case (Cons v vs)
  have "Min (insert (min a v) (set vs)) = Min (insert a (insert v (set vs)))"
    by (cases "set vs = {}") (simp_all add: min.assoc)
  then show ?case using Cons by (simp add: js_min2_Fin)
qed

lemma Math_max_Fin: "vs \<noteq> [] \<Longrightarrow> Math_max (map Fin vs) = Fin (Max (set vs))"
  by (cases vs) (simp_all add: Math_max_def js_max2_def foldl_js_max2_Fin)

lemma Math_min_Fin: "vs \<noteq> [] \<Longrightarrow> Math_min (map Fin vs) = Fin (Min (set vs))"
  by (cases vs) (simp_all add: Math_min_def js_min2_def foldl_js_min2_Fin)

text \<open>
  Claim C1. For every measurement sequence and every integer size of at least 1,
  \<open>calculateSubgroups\<close> returns, and returns exactly \<open>length dat div size\<close> subgroups:
  one for each complete window of \<open>size\<close> consecutive elements, in input order from
  index 0 (the windows concatenated are the first \<open>(length dat div size) * size\<close>
  elements, so a final partial window is dropped). The mean of a subgroup is the sum of
  its window divided by the size, its range the maximum of the window minus its minimum.
\<close>

theorem calculateSubgroups_complete_windows:
  assumes "1 \<le> sz"
  shows "calculateSubgroups dat sz =
           Some (map (\<lambda>w. \<lparr>mean = js_div (foldl js_add (Fin 0) w) (Fin (of_int sz)),
                           range_sg = js_sub (Math_max w) (Math_min w)\<rparr>)
                   (windows dat (nat sz)))
         \<and> length (windows dat (nat sz)) = length dat div nat sz
         \<and> (\<forall>w \<in> set (windows dat (nat sz)). length w = nat sz)
         \<and> concat (windows dat (nat sz)) = take (length dat div nat sz * nat sz) dat
         \<and> (\<forall>w \<in> set (windows dat (nat sz)). \<forall>vs. w = map Fin vs \<longrightarrow>
               Math_max w = Fin (Max (set vs)) \<and> Math_min w = Fin (Min (set vs)))"
proof -
  have n: "0 < nat sz" using assms by simp
  have a: "calculateSubgroups dat sz =
           Some (map (\<lambda>w. \<lparr>mean = js_div (foldl js_add (Fin 0) w) (Fin (of_int sz)),
                           range_sg = js_sub (Math_max w) (Math_min w)\<rparr>)
                   (windows dat (nat sz)))"
    using calculateSubgroups_windows [OF assms, of dat] by (simp add: mk_subgroup_def)
  have b: "length (windows dat (nat sz)) = length dat div nat sz"
    by (simp add: windows_def)
  have c: "\<forall>w \<in> set (windows dat (nat sz)). length w = nat sz"
    using length_window [OF n, of _ dat] by (auto simp: windows_def)
  have d: "concat (windows dat (nat sz)) = take (length dat div nat sz * nat sz) dat"
    unfolding windows_def by (rule concat_windows_upto) simp
  have e: "\<forall>w \<in> set (windows dat (nat sz)). \<forall>vs. w = map Fin vs \<longrightarrow>
               Math_max w = Fin (Max (set vs)) \<and> Math_min w = Fin (Min (set vs))"
  proof (intro ballI allI impI)
    fix w vs assume "w \<in> set (windows dat (nat sz))" "w = map Fin vs"
    then have "vs \<noteq> []" using c n by auto
    then show "Math_max w = Fin (Max (set vs)) \<and> Math_min w = Fin (Min (set vs))"
      using \<open>w = map Fin vs\<close> by (simp add: Math_max_Fin Math_min_Fin)
  qed
  show ?thesis using a b c d e by blast
qed

theorem calculateSubgroups_complete_windows_witness:
  "(1::int) \<le> 2 \<and>
   calculateSubgroups [Fin 10, Fin 12, Fin 11, Fin 13, Fin 9, Fin 11, Fin 10] 2 =
     Some [\<lparr>mean = Fin 11, range_sg = Fin 2\<rparr>, \<lparr>mean = Fin 12, range_sg = Fin 2\<rparr>,
           \<lparr>mean = Fin 10, range_sg = Fin 2\<rparr>]"
  using calculateSubgroups_complete_windows [of 2 "[Fin 10, Fin 12, Fin 11, Fin 13, Fin 9, Fin 11, Fin 10]"]
  by (simp add: windows_def upt_conv_Cons js_eval)

section \<open>The histogram's bin count and the result of handleAnalyze\<close>

lemma rnd_between_ints:
  assumes "of_int L \<le> x" "x \<le> of_int K" "1 \<le> L" "K < 2 ^ 53"
  shows "\<exists>y. rnd x = Fin y \<and> of_int L \<le> y \<and> y \<le> of_int K"
proof -
  let ?e = "ilog2 \<bar>x\<bar>"
  have x1: "1 \<le> x" using assms(1,3) by (smt (verit) of_int_1_le_iff)
  then have xpos: "0 < \<bar>x\<bar>" "\<bar>x\<bar> = x" by simp_all
  have b: "pow2 ?e \<le> x" "x < pow2 (?e + 1)"
    using ilog2_bounds [OF xpos(1)] xpos(2) by simp_all
  have "pow2 0 < pow2 (?e + 1)" using x1 b(2) by (simp add: pow2_def)
  then have e0: "0 \<le> ?e" by (simp add: pow2_less_iff)
  have "x < of_int (2 ^ 53)" using assms(2,4) by (smt (verit) of_int_less_iff)
  then have "pow2 ?e < pow2 53" using b(1) by (simp add: pow2_def)
  then have e52: "?e \<le> 52" by (simp add: pow2_less_iff)
  let ?s = "2 ^ nat (52 - ?e) :: int"
  let ?u = "pow2 (?e - 52)"
  have u: "?u = 1 / of_int ?s"
    using pow2_neg [of "52 - ?e"] pow2_int [of "52 - ?e"] e52 by simp
  have spos: "0 < (of_int ?s :: real)" by simp
  let ?m = "round_even (x / ?u)"
  have r: "rnd x = Fin (of_int ?m * ?u)"
    using rnd_normal [of x] x1 e0 e52 by simp
  have q: "x / ?u = x * of_int ?s" by (simp add: u)
  have "x * of_int ?s \<le> of_int (K * ?s)" using assms(2) spos by simp
  then have "?m \<le> K * ?s" unfolding q by (rule round_even_le)
  then have "(of_int ?m :: real) \<le> of_int (K * ?s)" by (simp only: of_int_le_iff)
  then have hi: "of_int ?m * ?u \<le> of_int K"
    using spos by (simp add: u pos_divide_le_eq)
  have "of_int (L * ?s) \<le> x * of_int ?s" using assms(1) spos by simp
  then have "L * ?s \<le> ?m" unfolding q by (rule round_even_ge)
  then have "(of_int (L * ?s) :: real) \<le> of_int ?m" by (simp only: of_int_le_iff)
  then have lo: "of_int L \<le> of_int ?m * ?u"
    using spos by (simp add: u pos_le_divide_eq)
  show ?thesis using r lo hi by blast
qed

lemma numberOfBins_valid:
  assumes "0 < n" "n < 2 ^ 32"
  shows "\<exists>k. Math_ceil (Math_sqrt (Fin (of_nat n))) = Fin (of_nat k) \<and> 0 < k \<and> k \<le> 2 ^ 16"
proof -
  have lo: "of_int 1 \<le> sqrt (real n)" using assms(1) by simp
  have "real n \<le> (2 ^ 16)\<^sup>2" using assms(2) by (simp add: of_nat_less_iff [of n "2^32", where ?'a = real, simplified] less_imp_le)
  then have "sqrt (real n) \<le> 2 ^ 16" by (intro real_le_lsqrt) simp_all
  then have hi: "sqrt (real n) \<le> of_int (2 ^ 16)" by simp
  obtain y where y: "rnd (sqrt (real n)) = Fin y" "of_int 1 \<le> y" "y \<le> of_int (2 ^ 16)"
    using rnd_between_ints [OF lo hi] by auto
  have c1: "1 \<le> \<lceil>y\<rceil>" using y(2) by (simp add: le_ceiling_iff)
  have c2: "\<lceil>y\<rceil> \<le> 2 ^ 16" using y(3) by (simp only: ceiling_le_iff)
  let ?k = "nat \<lceil>y\<rceil>"
  have "Math_ceil (Math_sqrt (Fin (of_nat n))) = Fin (of_int \<lceil>y\<rceil>)"
    using y(1) by simp
  also have "of_int \<lceil>y\<rceil> = (of_nat ?k :: real)" using c1 by simp
  finally have "Math_ceil (Math_sqrt (Fin (of_nat n))) = Fin (of_nat ?k)" .
  moreover have "0 < ?k" using c1 by simp
  moreover have "?k \<le> 2 ^ 16" using c2 by (simp add: nat_le_iff)
  ultimately show ?thesis by blast
qed

lemma new_Array_nat: "k < 2 ^ 32 \<Longrightarrow> new_Array (Fin (of_nat k)) = Inr (replicate k 0)"
proof -
  assume "k < 2 ^ 32"
  then have "real k < 2 ^ 32"
    by (metis of_nat_less_iff of_nat_numeral of_nat_power)
  then show ?thesis by (simp add: new_Array_def)
qed

lemma calculateDistributionData_returns:
  assumes "length specs < 2 ^ 32"
  shows "\<exists>dd. calculateDistributionData specs = Inr dd"
proof -
  obtain k where k: "Math_ceil (Math_sqrt (Fin (of_nat (length specs)))) = Fin (of_nat k)" "k \<le> 2 ^ 16"
  proof (cases "length specs = 0")
    case True
    then show ?thesis using that [of 0] by (simp add: rnd_zero)
  next
    case False
    then show ?thesis using numberOfBins_valid [of "length specs"] assms that by auto
  qed
  have "k < 2 ^ 32" using k(2) by (rule le_less_trans) simp
  then have "new_Array (Fin (of_nat k)) = Inr (replicate k 0)" by (rule new_Array_nat)
  then show ?thesis unfolding calculateDistributionData_def Let_def k(1) by simp
qed

lemma constants_defined:
  assumes "1 \<le> n" "n \<le> 5"
  shows "\<exists>c. constants n = Some c \<and> D3 c = Fin 0"
proof -
  have "n = 1 \<or> n = 2 \<or> n = 3 \<or> n = 4 \<or> n = 5" using assms by arith
  then show ?thesis by (auto simp: constants_def)
qed

lemma handleAnalyze_returns:
  assumes "1 \<le> n" "n \<le> 5" "fd \<noteq> []" "length fd < 2 ^ 32"
  shows "\<exists>a c. handleAnalyze fd n = Some (Inr a)
           \<and> constants n = Some c
           \<and> metrics a =
               capabilityMetrics n
                 (subgroupsMean (subgroups_of (map ActualSpecification fd) n))
                 (subgroupsRangeMean (subgroups_of (map ActualSpecification fd) n))
                 (FromSpecification (hd fd)) (ToSpecification (hd fd))
           \<and> limits (controlCharts a) = controlLimits c (subgroups_of (map ActualSpecification fd) n)
           \<and> xBarData (controlCharts a) = chart_points (map mean (subgroups_of (map ActualSpecification fd) n))
           \<and> rangeData (controlCharts a) = chart_points (map range_sg (subgroups_of (map ActualSpecification fd) n))"
proof -
  let ?specs = "map ActualSpecification fd"
  have sg: "calculateSubgroups ?specs n = Some (subgroups_of ?specs n)"
    using calculateSubgroups_windows [OF assms(1)] by (simp add: subgroups_of_def)
  obtain c where c: "constants n = Some c"
    using constants_defined [OF assms(1,2)] by auto
  obtain dd where dd: "calculateDistributionData ?specs = Inr dd"
    using calculateDistributionData_returns [of ?specs] assms(4) by auto
  let ?sgs = "subgroups_of ?specs n"
  let ?m = "subgroupsMean ?sgs"
  let ?rm = "subgroupsRangeMean ?sgs"
  let ?u = "ToSpecification (hd fd)"
  let ?l = "FromSpecification (hd fd)"
  let ?a = "\<lparr>metrics = capabilityMetrics n ?m ?rm ?l ?u,
             controlCharts =
               \<lparr>xBarData = chart_points (map mean ?sgs),
                rangeData = chart_points (map range_sg ?sgs),
                limits = controlLimits c ?sgs\<rparr>,
             distribution =
               \<lparr>data = data dd,
                numberOfBins = numberOfBins dd,
                stats =
                  \<lparr>mean_stats = Number_toFixed4 ?m,
                   stdDev = Number_toFixed4 (estimate_stdDev n ?rm),
                   target = Number_toFixed4 (js_div (js_add ?u ?l) (Fin 2))\<rparr>\<rparr>\<rparr>"
  have ab: "analysis_body fd n ?sgs = Inr ?a"
    using assms(3) dd by (cases fd) (simp_all add: analysis_body_def c Let_def)
  have "handleAnalyze fd n = Some (Inr ?a)"
    by (simp add: handleAnalyze_def sg ab)
  then show ?thesis using c by simp
qed

lemma Math_min_pair: "Math_min [a, b] = js_min2 a b"
  by (cases a) (simp_all add: Math_min_def js_min2_def)

lemmas pipeline_eval =
  subgroups_of_def windows_def upt_conv_Cons mk_subgroup_def subgroupsMean_def
  subgroupsRangeMean_def controlLimits_def Let_def js_eval

lemmas run_eval =
  inspection_def capabilityMetrics_def estimate_stdDev_def Math_min_pair chart_points_def
  pipeline_eval

lemma js_mul_NaN_right: "js_mul a NaN = NaN"
  by (cases a) simp_all

lemma js_div_NaN_right: "js_div a NaN = NaN"
  by (cases a) simp_all

section \<open>Capability metrics\<close>

text \<open>
  Claim C7. For every valid input (a sample size from 1 to 5 and at least one record; an
  array has fewer than \<open>2^32\<close> elements) \<open>handleAnalyze\<close> returns an analysis, and in
  its metrics \<open>pp\<close>, \<open>ppu\<close>, \<open>ppl\<close>, \<open>ppk\<close> are the same numbers as \<open>cp\<close>,
  \<open>cpkUpper\<close>, \<open>cpkLower\<close>, \<open>cpk\<close>; the two standard deviations are one number too:
  no separate long-term sigma is computed.
\<close>

theorem performance_indices_alias_capability_indices:
  assumes "1 \<le> n" "n \<le> 5" "fd \<noteq> []" "length fd < 2 ^ 32"
  shows "\<exists>a. handleAnalyze fd n = Some (Inr a)
           \<and> pp (metrics a) = cp (metrics a)
           \<and> ppu (metrics a) = cpkUpper (metrics a)
           \<and> ppl (metrics a) = cpkLower (metrics a)
           \<and> ppk (metrics a) = cpk (metrics a)
           \<and> stdDevOverall (metrics a) = stdDevWithin (metrics a)"
proof -
  obtain a c where a: "handleAnalyze fd n = Some (Inr a)"
    "metrics a =
       capabilityMetrics n
         (subgroupsMean (subgroups_of (map ActualSpecification fd) n))
         (subgroupsRangeMean (subgroups_of (map ActualSpecification fd) n))
         (FromSpecification (hd fd)) (ToSpecification (hd fd))"
    using handleAnalyze_returns [OF assms] by blast
  show ?thesis using a(1) by (simp add: a(2) capabilityMetrics_def Let_def)
qed

theorem performance_indices_alias_capability_indices_witness:
  "(1::int) \<le> 2 \<and> (2::int) \<le> 5
   \<and> [\<lparr>ActualSpecification = Fin 10, FromSpecification = Fin 5, ToSpecification = Fin 15\<rparr>,
       \<lparr>ActualSpecification = Fin 12, FromSpecification = Fin 5, ToSpecification = Fin 15\<rparr>] \<noteq> []
   \<and> length [\<lparr>ActualSpecification = Fin 10, FromSpecification = Fin 5, ToSpecification = Fin 15\<rparr>,
       \<lparr>ActualSpecification = Fin 12, FromSpecification = Fin 5, ToSpecification = Fin 15\<rparr>] < 2 ^ 32
   \<and> (\<exists>a. handleAnalyze
              [\<lparr>ActualSpecification = Fin 10, FromSpecification = Fin 5, ToSpecification = Fin 15\<rparr>,
               \<lparr>ActualSpecification = Fin 12, FromSpecification = Fin 5, ToSpecification = Fin 15\<rparr>] 2
            = Some (Inr a)
          \<and> pp (metrics a) = cp (metrics a)
          \<and> ppu (metrics a) = cpkUpper (metrics a)
          \<and> ppl (metrics a) = cpkLower (metrics a)
          \<and> ppk (metrics a) = cpk (metrics a)
          \<and> stdDevOverall (metrics a) = stdDevWithin (metrics a))"
  using performance_indices_alias_capability_indices
    [of 2 "[\<lparr>ActualSpecification = Fin 10, FromSpecification = Fin 5, ToSpecification = Fin 15\<rparr>,
            \<lparr>ActualSpecification = Fin 12, FromSpecification = Fin 5, ToSpecification = Fin 15\<rparr>]"]
  by simp

text \<open>
  Claim C2. For every valid input the returned capability metrics are, each rounded to
  four decimals, \<open>stdDev = rangeMean / d2(size)\<close> with \<open>d2(1) = 1.128\<close> and
  \<open>d2(size) = sqrt(size)\<close> otherwise, \<open>cp = (usl - lsl) / (6 * stdDev)\<close>,
  \<open>cpu = (usl - xBarMean) / (3 * stdDev)\<close>, \<open>cpl = (xBarMean - lsl) / (3 * stdDev)\<close>
  and \<open>cpk = min(cpu, cpl)\<close>; \<open>rangeMean\<close> and \<open>xBarMean\<close> are the means of the
  subgroups' ranges and means.
\<close>

theorem capability_formulas:
  assumes "1 \<le> n" "n \<le> 5" "fd \<noteq> []" "length fd < 2 ^ 32"
  shows "\<exists>a. handleAnalyze fd n = Some (Inr a)
           \<and> (let sgs = subgroups_of (map ActualSpecification fd) n;
                   m = subgroupsMean sgs;
                   rm = subgroupsRangeMean sgs;
                   l = FromSpecification (hd fd);
                   u = ToSpecification (hd fd);
                   sd = js_div rm (d2_spec n);
                   cp_s = js_div (js_sub u l) (js_mul (Fin 6) sd);
                   cpu_s = js_div (js_sub u m) (js_mul (Fin 3) sd);
                   cpl_s = js_div (js_sub m l) (js_mul (Fin 3) sd)
               in xBar (metrics a) = Number_toFixed4 m
                \<and> movingRange (metrics a) = Number_toFixed4 rm
                \<and> stdDevWithin (metrics a) = Number_toFixed4 sd
                \<and> cp (metrics a) = Number_toFixed4 cp_s
                \<and> cpkUpper (metrics a) = Number_toFixed4 cpu_s
                \<and> cpkLower (metrics a) = Number_toFixed4 cpl_s
                \<and> cpk (metrics a) = Number_toFixed4 (js_min2 cpu_s cpl_s))
           \<and> d2_spec 1 = rnd 1.128
           \<and> (n \<noteq> 1 \<longrightarrow> d2_spec n = Math_sqrt (Fin (of_int n)))"
proof -
  obtain a c where a: "handleAnalyze fd n = Some (Inr a)"
    "metrics a =
       capabilityMetrics n
         (subgroupsMean (subgroups_of (map ActualSpecification fd) n))
         (subgroupsRangeMean (subgroups_of (map ActualSpecification fd) n))
         (FromSpecification (hd fd)) (ToSpecification (hd fd))"
    using handleAnalyze_returns [OF assms] by blast
  show ?thesis
    using a(1)
    by (simp add: a(2) capabilityMetrics_def estimate_stdDev_def d2_spec_def Math_min_pair Let_def)
qed

theorem capability_formulas_witness:
  "(1::int) \<le> 4 \<and> (4::int) \<le> 5
   \<and> map (\<lambda>v. \<lparr>ActualSpecification = Fin v, FromSpecification = Fin 5, ToSpecification = Fin 15\<rparr>)
         [10, 12, 11, 13] \<noteq> []
   \<and> length (map (\<lambda>v. \<lparr>ActualSpecification = Fin v, FromSpecification = Fin 5, ToSpecification = Fin 15\<rparr>)
         [10, 12, 11, 13]) < 2 ^ 32
   \<and> (\<exists>a. handleAnalyze
              (map (\<lambda>v. \<lparr>ActualSpecification = Fin v, FromSpecification = Fin 5, ToSpecification = Fin 15\<rparr>)
                 [10, 12, 11, 13]) 4
            = Some (Inr a)
          \<and> xBar (metrics a) = Fin (23 / 2)
          \<and> movingRange (metrics a) = Fin 3
          \<and> stdDevWithin (metrics a) = Fin (3 / 2)
          \<and> cp (metrics a) = rnd 1.1111
          \<and> cpkUpper (metrics a) = rnd 0.7778
          \<and> cpkLower (metrics a) = rnd 1.4444
          \<and> cpk (metrics a) = rnd 0.7778)"
  using capability_formulas
    [of 4 "map (\<lambda>v. \<lparr>ActualSpecification = Fin v, FromSpecification = Fin 5, ToSpecification = Fin 15\<rparr>)
         [10, 12, 11, 13]"]
  by (simp add: d2_spec_def pipeline_eval)

lemma windows_size_1: "windows xs (Suc 0) = map (\<lambda>v. [v]) xs"
proof -
  have "take 1 (drop k xs) = [xs ! k]" if "k < length xs" for k
    using that by (simp add: take_Suc_conv_app_nth)
  then have "map (\<lambda>k. take (Suc 0) (drop (k * Suc 0) xs)) [0..<length xs] = map (\<lambda>k. [xs ! k]) [0..<length xs]"
    by simp
  also have "\<dots> = map (\<lambda>v. [v]) (map (\<lambda>k. xs ! k) [0..<length xs])" by (simp add: comp_def)
  also have "map (\<lambda>k. xs ! k) [0..<length xs] = xs" by (rule map_nth)
  finally show ?thesis by (simp add: windows_def)
qed

lemma range_single_finite:
  assumes "is_finite v"
  shows "range_sg (mk_subgroup [v] sz) = Fin 0"
  using assms
  by (cases v) (simp_all add: mk_subgroup_def Math_max_def Math_min_def js_max2_def js_min2_def
      js_sub_def rnd_zero)

lemma subgroups_size_1_ranges:
  assumes "\<forall>v \<in> set dat. is_finite v"
  shows "\<forall>s \<in> set (subgroups_of dat 1). range_sg s = Fin 0"
  using assms by (auto simp: subgroups_of_def windows_size_1 range_single_finite)

lemma foldl_zero_ranges:
  "\<forall>s \<in> set sgs. range_sg s = Fin 0 \<Longrightarrow>
   foldl (\<lambda>a b. js_add a (range_sg b)) (Fin 0) sgs = Fin 0"
  by (induction sgs) (simp_all add: rnd_zero)

lemma subgroupsRangeMean_zero:
  assumes "\<forall>s \<in> set sgs. range_sg s = Fin 0" "sgs \<noteq> []"
  shows "subgroupsRangeMean sgs = Fin 0"
  using assms by (simp add: subgroupsRangeMean_def foldl_zero_ranges rnd_zero)

lemma estimate_stdDev_zero: "estimate_stdDev 1 (Fin 0) = Fin 0"
  by (simp add: estimate_stdDev_def rnd_eval rnd_zero)

lemma js_div_by_zero: "js_div a (Fin 0) \<in> {PInf, NInf, NaN}"
  by (cases a) (simp_all add: signed_inf_def)

lemma Number_toFixed4_not_finite: "v \<in> {PInf, NInf, NaN} \<Longrightarrow> Number_toFixed4 v = v"
  by auto

lemma js_min2_not_finite:
  "a \<in> {PInf, NInf, NaN} \<Longrightarrow> b \<in> {PInf, NInf, NaN} \<Longrightarrow> js_min2 a b \<in> {PInf, NInf, NaN}"
  by (auto simp: js_min2_def)

text \<open>
  Claim C10. With sample size 1 (the size the screen starts with) and finite
  measurements, at least one, every subgroup that \<open>calculateSubgroups\<close> returns has
  range 0, so \<open>rangeMean\<close> is 0 and the estimated standard deviation \<open>0 / 1.128\<close>
  is 0; \<open>cp\<close>, \<open>cpu\<close>, \<open>cpl\<close> and \<open>cpk\<close> are then divisions by zero, and the
  returned metrics hold an infinity or NaN for each: no error is raised, and the analysis
  is returned.
\<close>

theorem sample_size_one_divides_by_zero:
  assumes "fd \<noteq> []" "length fd < 2 ^ 32" "\<forall>d \<in> set fd. is_finite (ActualSpecification d)"
  shows "\<exists>sgs a. calculateSubgroups (map ActualSpecification fd) 1 = Some sgs
           \<and> length sgs = length fd
           \<and> (\<forall>s \<in> set sgs. range_sg s = Fin 0)
           \<and> handleAnalyze fd 1 = Some (Inr a)
           \<and> rangeMean (limits (controlCharts a)) = Fin 0
           \<and> movingRange (metrics a) = Fin 0
           \<and> stdDevWithin (metrics a) = Fin 0
           \<and> stdDevOverall (metrics a) = Fin 0
           \<and> cp (metrics a) \<in> {PInf, NInf, NaN}
           \<and> cpkUpper (metrics a) \<in> {PInf, NInf, NaN}
           \<and> cpkLower (metrics a) \<in> {PInf, NInf, NaN}
           \<and> cpk (metrics a) \<in> {PInf, NInf, NaN}
           \<and> initial_sampleSize = 1"
proof -
  let ?specs = "map ActualSpecification fd"
  let ?sgs = "subgroups_of ?specs 1"
  have cs: "calculateSubgroups ?specs 1 = Some ?sgs"
    using calculateSubgroups_windows [of 1 ?specs] by (simp add: subgroups_of_def)
  have len: "length ?sgs = length fd"
    by (simp add: subgroups_of_def windows_size_1)
  have fin: "\<forall>v \<in> set ?specs. is_finite v" using assms(3) by simp
  have rg: "\<forall>s \<in> set ?sgs. range_sg s = Fin 0"
    using fin by (rule subgroups_size_1_ranges)
  have ne: "?sgs \<noteq> []" using len assms(1) by auto
  have rm: "subgroupsRangeMean ?sgs = Fin 0"
    using rg ne by (rule subgroupsRangeMean_zero)
  obtain a c where a: "handleAnalyze fd 1 = Some (Inr a)"
    "metrics a =
       capabilityMetrics 1 (subgroupsMean ?sgs) (subgroupsRangeMean ?sgs)
         (FromSpecification (hd fd)) (ToSpecification (hd fd))"
    "limits (controlCharts a) = controlLimits c ?sgs"
    using handleAnalyze_returns [of 1 fd] assms(1,2) by auto
  have l: "rangeMean (limits (controlCharts a)) = Fin 0"
    by (simp add: a(3) controlLimits_def Let_def rm rnd_zero)
  have six: "js_mul (Fin 6) (Fin 0) = Fin 0" "js_mul (Fin 3) (Fin 0) = Fin 0"
    by (simp_all add: rnd_zero)
  have m: "movingRange (metrics a) = Fin 0" "stdDevWithin (metrics a) = Fin 0"
    "stdDevOverall (metrics a) = Fin 0"
    by (simp_all add: a(2) capabilityMetrics_def Let_def rm estimate_stdDev_zero rnd_zero)
  have k: "cp (metrics a) \<in> {PInf, NInf, NaN}" "cpkUpper (metrics a) \<in> {PInf, NInf, NaN}"
    "cpkLower (metrics a) \<in> {PInf, NInf, NaN}"
    unfolding a(2) capabilityMetrics_def Let_def rm estimate_stdDev_zero six
    using js_div_by_zero Number_toFixed4_not_finite by (simp_all del: Number_toFixed4.simps insert_iff)
  have k4: "cpk (metrics a) \<in> {PInf, NInf, NaN}"
    unfolding a(2) capabilityMetrics_def Let_def rm estimate_stdDev_zero six Math_min_pair
    using js_div_by_zero js_min2_not_finite Number_toFixed4_not_finite
    by (simp del: Number_toFixed4.simps insert_iff)
  show ?thesis using cs len rg a(1) l m k k4 by (simp add: initial_sampleSize_def)
qed
theorem sample_size_one_divides_by_zero_witness:
  "[inspection 10 5 15, inspection 12 5 15] \<noteq> []
   \<and> length [inspection 10 5 15, inspection 12 5 15] < 2 ^ 32
   \<and> is_finite (ActualSpecification (inspection 10 5 15))
   \<and> is_finite (ActualSpecification (inspection 12 5 15))
   \<and> (\<exists>sgs a. calculateSubgroups (map ActualSpecification [inspection 10 5 15, inspection 12 5 15]) 1 = Some sgs
           \<and> length sgs = length [inspection 10 5 15, inspection 12 5 15]
           \<and> (\<forall>s \<in> set sgs. range_sg s = Fin 0)
           \<and> handleAnalyze [inspection 10 5 15, inspection 12 5 15] 1 = Some (Inr a)
           \<and> rangeMean (limits (controlCharts a)) = Fin 0
           \<and> movingRange (metrics a) = Fin 0
           \<and> stdDevWithin (metrics a) = Fin 0
           \<and> stdDevOverall (metrics a) = Fin 0
           \<and> cp (metrics a) \<in> {PInf, NInf, NaN}
           \<and> cpkUpper (metrics a) \<in> {PInf, NInf, NaN}
           \<and> cpkLower (metrics a) \<in> {PInf, NInf, NaN}
           \<and> cpk (metrics a) \<in> {PInf, NInf, NaN}
           \<and> initial_sampleSize = 1)"
proof -
  have h: "[inspection 10 5 15, inspection 12 5 15] \<noteq> []"
    "length [inspection 10 5 15, inspection 12 5 15] < 2 ^ 32"
    "\<forall>d \<in> set [inspection 10 5 15, inspection 12 5 15]. is_finite (ActualSpecification d)"
    by (simp_all add: inspection_def)
  show ?thesis
    using sample_size_one_divides_by_zero [OF h] h(1,2)
    by (simp add: inspection_def)
qed

section \<open>Control limits\<close>

lemma exact_sum_foldl:
  "exact_sum a vs \<Longrightarrow> foldl js_add (Fin a) vs = Fin (a + sum_list (map fin_val vs))"
proof (induction vs arbitrary: a)
  case Nil
  then show ?case by simp
next
  case (Cons v vs)
  then show ?case by (cases v) (simp_all add: add.assoc)
qed

lemma foldl_js_add_map: "foldl (\<lambda>a b. js_add a (f b)) z xs = foldl js_add z (map f xs)"
  by (induction xs arbitrary: z) simp_all

lemma sum_list_mset_cong:
  assumes "mset xs = mset ys"
  shows "sum_list (map f xs) = (sum_list (map f ys) :: real)"
proof -
  have "sum_mset (mset (map f xs)) = sum_mset (mset (map f ys))"
    using assms by (metis mset_map)
  then show ?thesis by (simp only: sum_mset_sum_list)
qed

lemma subgroupsMean_exact:
  assumes "exact_sum 0 (map mean sgs)"
  shows "subgroupsMean sgs =
         js_div (Fin (sum_list (map (fin_val \<circ> mean) sgs))) (Fin (of_nat (length sgs)))"
  using exact_sum_foldl [OF assms] foldl_js_add_map [of mean "Fin 0" sgs]
  by (simp add: subgroupsMean_def)

lemma subgroupsRangeMean_exact:
  assumes "exact_sum 0 (map range_sg sgs)"
  shows "subgroupsRangeMean sgs =
         js_div (Fin (sum_list (map (fin_val \<circ> range_sg) sgs))) (Fin (of_nat (length sgs)))"
  using exact_sum_foldl [OF assms] foldl_js_add_map [of range_sg "Fin 0" sgs]
  by (simp add: subgroupsRangeMean_def)

text \<open>
  Claim C9, amended. The control limits of two orderings of the same subgroups are
  identical whenever, in both orders, no addition of the left-to-right sums of the means
  and of the ranges is rounded. (When additions round, the sums depend on the order.)
\<close>

theorem controlLimits_permutation_exact_sums:
  assumes "mset sgs = mset sgs'"
    and "exact_sum 0 (map mean sgs)" "exact_sum 0 (map mean sgs')"
    and "exact_sum 0 (map range_sg sgs)" "exact_sum 0 (map range_sg sgs')"
  shows "controlLimits c sgs = controlLimits c sgs'"
proof -
  have len: "length sgs = length sgs'" using assms(1) by (rule mset_eq_length)
  have "subgroupsMean sgs = subgroupsMean sgs'"
    using sum_list_mset_cong [OF assms(1), of "fin_val \<circ> mean"] len
    by (simp add: subgroupsMean_exact assms(2,3))
  moreover have "subgroupsRangeMean sgs = subgroupsRangeMean sgs'"
    using sum_list_mset_cong [OF assms(1), of "fin_val \<circ> range_sg"] len
    by (simp add: subgroupsRangeMean_exact assms(4,5))
  ultimately show ?thesis by (simp add: controlLimits_def)
qed

theorem controlLimits_permutation_exact_sums_witness:
  "mset [\<lparr>mean = Fin 11, range_sg = Fin 2\<rparr>, \<lparr>mean = Fin 12, range_sg = Fin 3\<rparr>,
         \<lparr>mean = Fin 10, range_sg = Fin 1\<rparr>]
   = mset [\<lparr>mean = Fin 10, range_sg = Fin 1\<rparr>, \<lparr>mean = Fin 11, range_sg = Fin 2\<rparr>,
         \<lparr>mean = Fin 12, range_sg = Fin 3\<rparr>]
   \<and> exact_sum 0 (map mean [\<lparr>mean = Fin 11, range_sg = Fin 2\<rparr>, \<lparr>mean = Fin 12, range_sg = Fin 3\<rparr>,
         \<lparr>mean = Fin 10, range_sg = Fin 1\<rparr>])
   \<and> exact_sum 0 (map mean [\<lparr>mean = Fin 10, range_sg = Fin 1\<rparr>, \<lparr>mean = Fin 11, range_sg = Fin 2\<rparr>,
         \<lparr>mean = Fin 12, range_sg = Fin 3\<rparr>])
   \<and> exact_sum 0 (map range_sg [\<lparr>mean = Fin 11, range_sg = Fin 2\<rparr>, \<lparr>mean = Fin 12, range_sg = Fin 3\<rparr>,
         \<lparr>mean = Fin 10, range_sg = Fin 1\<rparr>])
   \<and> exact_sum 0 (map range_sg [\<lparr>mean = Fin 10, range_sg = Fin 1\<rparr>, \<lparr>mean = Fin 11, range_sg = Fin 2\<rparr>,
         \<lparr>mean = Fin 12, range_sg = Fin 3\<rparr>])
   \<and> controlLimits \<lparr>A2 = rnd 0.729, D3 = Fin 0, D4 = rnd 2.575\<rparr>
         [\<lparr>mean = Fin 11, range_sg = Fin 2\<rparr>, \<lparr>mean = Fin 12, range_sg = Fin 3\<rparr>,
          \<lparr>mean = Fin 10, range_sg = Fin 1\<rparr>]
     = controlLimits \<lparr>A2 = rnd 0.729, D3 = Fin 0, D4 = rnd 2.575\<rparr>
         [\<lparr>mean = Fin 10, range_sg = Fin 1\<rparr>, \<lparr>mean = Fin 11, range_sg = Fin 2\<rparr>,
          \<lparr>mean = Fin 12, range_sg = Fin 3\<rparr>]"
proof -
  have m: "mset [\<lparr>mean = Fin 11, range_sg = Fin 2\<rparr>, \<lparr>mean = Fin 12, range_sg = Fin 3\<rparr>,
         \<lparr>mean = Fin 10, range_sg = Fin 1\<rparr>]
   = mset [\<lparr>mean = Fin 10, range_sg = Fin 1\<rparr>, \<lparr>mean = Fin 11, range_sg = Fin 2\<rparr>,
         \<lparr>mean = Fin 12, range_sg = Fin 3\<rparr>]"
    by (simp add: add_mset_commute)
  have e: "exact_sum 0 (map mean [\<lparr>mean = Fin 11, range_sg = Fin 2\<rparr>, \<lparr>mean = Fin 12, range_sg = Fin 3\<rparr>,
         \<lparr>mean = Fin 10, range_sg = Fin 1\<rparr>])"
     "exact_sum 0 (map mean [\<lparr>mean = Fin 10, range_sg = Fin 1\<rparr>, \<lparr>mean = Fin 11, range_sg = Fin 2\<rparr>,
         \<lparr>mean = Fin 12, range_sg = Fin 3\<rparr>])"
     "exact_sum 0 (map range_sg [\<lparr>mean = Fin 11, range_sg = Fin 2\<rparr>, \<lparr>mean = Fin 12, range_sg = Fin 3\<rparr>,
         \<lparr>mean = Fin 10, range_sg = Fin 1\<rparr>])"
     "exact_sum 0 (map range_sg [\<lparr>mean = Fin 10, range_sg = Fin 1\<rparr>, \<lparr>mean = Fin 11, range_sg = Fin 2\<rparr>,
         \<lparr>mean = Fin 12, range_sg = Fin 3\<rparr>])"
    by (simp_all add: js_eval)
  show ?thesis
    using controlLimits_permutation_exact_sums [OF m e, of "\<lparr>A2 = rnd 0.729, D3 = Fin 0, D4 = rnd 2.575\<rparr>"] m e
    by blast
qed

text \<open>
  Claim C9 as stated fails: four subgroups of size 1 with the means \<open>3.459\<close>,
  \<open>20.157\<close>, \<open>27.384\<close>, \<open>23.687\<close> have the exact mean \<open>18.67175\<close>; summed in
  this order the doubles give a mean just below it and \<open>xBarMean = 18.6717\<close>, summed in
  the order \<open>20.157, 23.687, 3.459, 27.384\<close> a mean just above it and
  \<open>xBarMean = 18.6718\<close>.
\<close>

theorem controlLimits_permutation_counterexample:
  "mset [\<lparr>mean = rnd 3.459, range_sg = Fin 0\<rparr>, \<lparr>mean = rnd 20.157, range_sg = Fin 0\<rparr>,
         \<lparr>mean = rnd 27.384, range_sg = Fin 0\<rparr>, \<lparr>mean = rnd 23.687, range_sg = Fin 0\<rparr>]
   = mset [\<lparr>mean = rnd 20.157, range_sg = Fin 0\<rparr>, \<lparr>mean = rnd 23.687, range_sg = Fin 0\<rparr>,
         \<lparr>mean = rnd 3.459, range_sg = Fin 0\<rparr>, \<lparr>mean = rnd 27.384, range_sg = Fin 0\<rparr>]
   \<and> xBarMean (controlLimits \<lparr>A2 = rnd 1.880, D3 = Fin 0, D4 = rnd 3.267\<rparr>
        [\<lparr>mean = rnd 3.459, range_sg = Fin 0\<rparr>, \<lparr>mean = rnd 20.157, range_sg = Fin 0\<rparr>,
         \<lparr>mean = rnd 27.384, range_sg = Fin 0\<rparr>, \<lparr>mean = rnd 23.687, range_sg = Fin 0\<rparr>]) = rnd 18.6717
   \<and> xBarMean (controlLimits \<lparr>A2 = rnd 1.880, D3 = Fin 0, D4 = rnd 3.267\<rparr>
        [\<lparr>mean = rnd 20.157, range_sg = Fin 0\<rparr>, \<lparr>mean = rnd 23.687, range_sg = Fin 0\<rparr>,
         \<lparr>mean = rnd 3.459, range_sg = Fin 0\<rparr>, \<lparr>mean = rnd 27.384, range_sg = Fin 0\<rparr>]) = rnd 18.6718
   \<and> rnd 18.6717 \<noteq> rnd 18.6718"
  by (simp add: controlLimits_def subgroupsMean_def subgroupsRangeMean_def Let_def js_eval add_mset_commute)

text \<open>
  Claim C8, amended. For every subgroup sequence and every tabulated sample size,
  \<open>rangeLcl\<close> is \<open>D3 * rangeMean\<close> rounded to four decimals, with \<open>D3 = 0\<close>: it is
  \<open>0\<close> whenever \<open>rangeMean\<close> is a finite number, and NaN when \<open>rangeMean\<close> is
  infinite or NaN, as when a range or the sum of the ranges overflows.
\<close>

theorem rangeLcl_zero_when_rangeMean_finite:
  assumes "constants n = Some c"
  shows "D3 c = Fin 0
         \<and> rangeLcl (controlLimits c sgs) = Number_toFixed4 (js_mul (D3 c) (subgroupsRangeMean sgs))
         \<and> (is_finite (subgroupsRangeMean sgs) \<longrightarrow> rangeLcl (controlLimits c sgs) = Fin 0)
         \<and> (\<not> is_finite (subgroupsRangeMean sgs) \<longrightarrow> rangeLcl (controlLimits c sgs) = NaN)"
proof -
  have d3: "D3 c = Fin 0" using assms by (auto simp: constants_def split: if_splits)
  have "rangeLcl (controlLimits c sgs) = Number_toFixed4 (js_mul (Fin 0) (subgroupsRangeMean sgs))"
    by (simp add: controlLimits_def Let_def d3)
  then show ?thesis using d3
    by (cases "subgroupsRangeMean sgs") (simp_all add: rnd_zero)
qed

theorem rangeLcl_zero_when_rangeMean_finite_witness:
  "constants 2 = Some \<lparr>A2 = rnd 1.023, D3 = Fin 0, D4 = rnd 3.267\<rparr>
   \<and> is_finite (subgroupsRangeMean
         [\<lparr>mean = Fin 11, range_sg = Fin 2\<rparr>, \<lparr>mean = Fin 12, range_sg = Fin 2\<rparr>,
          \<lparr>mean = Fin 10, range_sg = Fin 2\<rparr>, \<lparr>mean = Fin 11, range_sg = Fin 2\<rparr>])
   \<and> rangeLcl (controlLimits \<lparr>A2 = rnd 1.023, D3 = Fin 0, D4 = rnd 3.267\<rparr>
         [\<lparr>mean = Fin 11, range_sg = Fin 2\<rparr>, \<lparr>mean = Fin 12, range_sg = Fin 2\<rparr>,
          \<lparr>mean = Fin 10, range_sg = Fin 2\<rparr>, \<lparr>mean = Fin 11, range_sg = Fin 2\<rparr>]) = Fin 0"
proof -
  have c: "constants 2 = Some \<lparr>A2 = rnd 1.023, D3 = Fin 0, D4 = rnd 3.267\<rparr>"
    by (simp add: constants_def)
  have f: "subgroupsRangeMean
         [\<lparr>mean = Fin 11, range_sg = Fin 2\<rparr>, \<lparr>mean = Fin 12, range_sg = Fin 2\<rparr>,
          \<lparr>mean = Fin 10, range_sg = Fin 2\<rparr>, \<lparr>mean = Fin 11, range_sg = Fin 2\<rparr>] = Fin 2"
    by (simp add: subgroupsRangeMean_def js_eval)
  have "is_finite (subgroupsRangeMean
         [\<lparr>mean = Fin 11, range_sg = Fin 2\<rparr>, \<lparr>mean = Fin 12, range_sg = Fin 2\<rparr>,
          \<lparr>mean = Fin 10, range_sg = Fin 2\<rparr>, \<lparr>mean = Fin 11, range_sg = Fin 2\<rparr>]) \<longrightarrow>
        rangeLcl (controlLimits \<lparr>A2 = rnd 1.023, D3 = Fin 0, D4 = rnd 3.267\<rparr>
         [\<lparr>mean = Fin 11, range_sg = Fin 2\<rparr>, \<lparr>mean = Fin 12, range_sg = Fin 2\<rparr>,
          \<lparr>mean = Fin 10, range_sg = Fin 2\<rparr>, \<lparr>mean = Fin 11, range_sg = Fin 2\<rparr>]) = Fin 0"
    using rangeLcl_zero_when_rangeMean_finite [OF c] by blast
  then show ?thesis using c by (simp add: f)
qed

text \<open>
  Claim C8 as stated fails: the two measurements \<open>2^1023\<close> and \<open>-2^1023\<close> are finite,
  their range overflows to \<open>Infinity\<close>, and \<open>0 * Infinity\<close> is NaN.
\<close>

theorem rangeLcl_overflow_counterexample:
  "calculateSubgroups [Fin (2 ^ 1023), Fin (- (2 ^ 1023))] 2 = Some [\<lparr>mean = Fin 0, range_sg = PInf\<rparr>]
   \<and> constants 2 = Some \<lparr>A2 = rnd 1.023, D3 = Fin 0, D4 = rnd 3.267\<rparr>
   \<and> rangeMean (controlLimits \<lparr>A2 = rnd 1.023, D3 = Fin 0, D4 = rnd 3.267\<rparr>
         [\<lparr>mean = Fin 0, range_sg = PInf\<rparr>]) = PInf
   \<and> rangeLcl (controlLimits \<lparr>A2 = rnd 1.023, D3 = Fin 0, D4 = rnd 3.267\<rparr>
         [\<lparr>mean = Fin 0, range_sg = PInf\<rparr>]) = NaN"
proof -
  have w: "windows [Fin (2 ^ 1023), Fin (- (2 ^ 1023))] 2 = [[Fin (2 ^ 1023), Fin (- (2 ^ 1023))]]"
    by (simp add: windows_def upt_conv_Cons)
  have mx: "Math_max [Fin (2 ^ 1023), Fin (- (2 ^ 1023))] = Fin (2 ^ 1023)"
    using Math_max_Fin [of "[2 ^ 1023, - (2 ^ 1023)]"] by simp
  have mn: "Math_min [Fin (2 ^ 1023), Fin (- (2 ^ 1023))] = Fin (- (2 ^ 1023))"
    using Math_min_Fin [of "[2 ^ 1023, - (2 ^ 1023)]"] by simp
  have rg: "js_sub (Fin (2 ^ 1023)) (Fin (- (2 ^ 1023))) = PInf"
    using rnd_2_1024 by (simp add: js_sub_def)
  have sm: "foldl js_add (Fin 0) [Fin (2 ^ 1023), Fin (- (2 ^ 1023))] = Fin 0"
    using rnd_2_1023 by (simp add: rnd_zero)
  have a: "calculateSubgroups [Fin (2 ^ 1023), Fin (- (2 ^ 1023))] 2 = Some [\<lparr>mean = Fin 0, range_sg = PInf\<rparr>]"
    by (simp only: calculateSubgroups_windows [of 2] nat_numeral w list.map mk_subgroup_def mx mn rg sm)
       (simp add: rnd_zero)
  have b: "constants 2 = Some \<lparr>A2 = rnd 1.023, D3 = Fin 0, D4 = rnd 3.267\<rparr>"
    by (simp add: constants_def)
  have c: "subgroupsRangeMean [\<lparr>mean = Fin 0, range_sg = PInf\<rparr>] = PInf"
    by (simp add: subgroupsRangeMean_def signed_inf_def)
  show ?thesis using a b c by (simp add: controlLimits_def Let_def)
qed

section \<open>The histogram\<close>

text \<open>
  The index that \<open>calculateDistributionData\<close> increments is below the length of
  \<open>binCounts\<close> whenever it is a number: the array never grows.
\<close>

lemma binIndex_below_length:
  assumes "0 < k" "k < 2 ^ 32" "binIndex_of spec mn w (Fin (of_nat k)) = Fin j"
  shows "j < of_nat k"
proof -
  have "\<bar>int k - 1\<bar> < 2 ^ 53" using assms(1,2) by simp
  then have "rnd (of_int (int k - 1) * pow2 0) = Fin (of_int (int k - 1) * pow2 0)"
    by (rule rnd_representable) simp_all
  then have top: "js_sub (Fin (of_nat k)) (Fin 1) = Fin (of_nat k - 1)"
    by (simp add: js_sub_def pow2_def)
  have "js_min2 a (Fin (of_nat k - 1)) = Fin j \<Longrightarrow> j \<le> of_nat k - 1" for a
    by (cases a) (auto simp: js_min2_def split: if_splits)
  then have "j \<le> of_nat k - 1"
    using assms(3) by (simp add: binIndex_of_def Math_min_pair top)
  then show ?thesis by simp
qed

lemma Math_max_replicate: "0 < n \<Longrightarrow> Math_max (replicate n (Fin v)) = Fin v"
  using Math_max_Fin [of "replicate n v"] by (simp add: map_replicate [symmetric] del: map_replicate)

lemma Math_min_replicate: "0 < n \<Longrightarrow> Math_min (replicate n (Fin v)) = Fin v"
  using Math_min_Fin [of "replicate n v"] by (simp add: map_replicate [symmetric] del: map_replicate)

lemma foldl_unchanged: "(\<And>x. x \<in> set xs \<Longrightarrow> f a x = a) \<Longrightarrow> foldl f a xs = a"
  by (induction xs) simp_all

lemma binIndex_zero_width: "binIndex_of (Fin v) (Fin v) (Fin 0) nBins = NaN"
  by (simp add: binIndex_of_def js_sub_def rnd_zero Math_min_def js_min2_def)

lemma increment_NaN: "increment counts NaN = counts"
  by (simp add: increment_def)

text \<open>
  Claim C4 fails on the code when all measurements are equal. Then \<open>max = min\<close>, the
  bin width is \<open>0\<close>, every index is \<open>floor(0 / 0) = NaN\<close>, and
  \<open>binCounts[NaN]++\<close> changes no element: every bin keeps the count 0, and the counts
  sum to 0, not to the number of measurements. There is no branch for \<open>max = min\<close>.
\<close>

theorem histogram_of_identical_measurements_counts_nothing:
  assumes "0 < n" "n < 2 ^ 32"
  shows "\<exists>dd. calculateDistributionData (replicate n (Fin v)) = Inr dd
           \<and> data dd \<noteq> []
           \<and> (\<forall>b \<in> set (data dd). snd b = 0)
           \<and> sum_list (map snd (data dd)) = 0
           \<and> sum_list (map snd (data dd)) \<noteq> length (replicate n (Fin v))"
proof -
  let ?specs = "replicate n (Fin v)"
  obtain k where k: "Math_ceil (Math_sqrt (Fin (of_nat (length ?specs)))) = Fin (of_nat k)"
    "0 < k" "k \<le> 2 ^ 16"
    using numberOfBins_valid [of n] assms by auto
  have "k < 2 ^ 32" using k(3) by (rule le_less_trans) simp
  then have arr: "new_Array (Fin (of_nat k)) = Inr (replicate k 0)" by (rule new_Array_nat)
  have mx: "Math_max ?specs = Fin v" and mn: "Math_min ?specs = Fin v"
    using assms(1) by (simp_all add: Math_max_replicate Math_min_replicate)
  have w: "js_div (js_sub (Fin v) (Fin v)) (Fin (of_nat k)) = Fin 0"
    using k(2) by (simp add: js_sub_def rnd_zero)
  have counts: "foldl (\<lambda>counts spec. increment counts (binIndex_of spec (Fin v) (Fin 0) (Fin (of_nat k))))
                  (replicate k 0) ?specs = replicate k 0"
    by (rule foldl_unchanged) (simp add: binIndex_zero_width increment_NaN)
  let ?dd = "\<lparr>data = map (\<lambda>(count, i).
                              (js_add (js_add (Fin v) (js_mul (Fin (of_nat i)) (Fin 0)))
                                 (js_div (Fin 0) (Fin 2)),
                               count))
                         (zip (replicate k 0) [0..<length (replicate k (0::nat))]),
                 numberOfBins = Fin (of_nat k)\<rparr>"
  have dd: "calculateDistributionData ?specs = Inr ?dd"
    unfolding calculateDistributionData_def Let_def k(1) mx mn w arr by (simp add: counts)
  have ne: "data ?dd \<noteq> []" using k(2) by simp
  have z: "\<forall>b \<in> set (data ?dd). snd b = 0"
    by (auto simp: set_zip)
  then have s: "sum_list (map snd (data ?dd)) = 0" by (simp add: sum_list_eq_0_iff)
  have "sum_list (map snd (data ?dd)) \<noteq> length ?specs"
    unfolding s using assms(1) by simp
  then show ?thesis using dd ne z s by blast
qed

theorem histogram_of_identical_measurements_counts_nothing_witness:
  "(0::nat) < 8 \<and> (8::nat) < 2 ^ 32
   \<and> (\<exists>dd. calculateDistributionData (replicate 8 (Fin 10)) = Inr dd
           \<and> data dd \<noteq> []
           \<and> (\<forall>b \<in> set (data dd). snd b = 0)
           \<and> sum_list (map snd (data dd)) = 0
           \<and> sum_list (map snd (data dd)) \<noteq> length (replicate 8 (Fin 10)))"
  using histogram_of_identical_measurements_counts_nothing [of 8 10] by simp

text \<open>Four measurements \<open>10\<close>: two bins, both centred at \<open>10\<close>, both empty.\<close>

lemma histogram_four_identical:
  "calculateDistributionData [Fin 10, Fin 10, Fin 10, Fin 10]
   = Inr \<lparr>data = [(Fin 10, 0), (Fin 10, 0)], numberOfBins = Fin 2\<rparr>"
  by (simp add: calculateDistributionData_def new_Array_def binIndex_of_def increment_def
      upt_conv_Cons Let_def js_eval numeral_2_eq_2)

section \<open>Invalid configurations and missing data\<close>

lemma calculateSubgroups_loop_never_returns:
  assumes "calculateSubgroups_loop dat sz i acc = Some r"
  shows "\<not> (sz < 0 \<and> i < int (length dat))"
proof (rule calculateSubgroups_loop.raw_induct
    [where P = "\<lambda>dat sz i acc r. \<not> (sz < 0 \<and> i < int (length dat))", OF _ assms])
  fix loop :: "jsnum list \<Rightarrow> int \<Rightarrow> int \<Rightarrow> Subgroup list \<Rightarrow> Subgroup list option"
  fix dat sz i acc r
  assume IH: "\<And>dat sz i acc r. loop dat sz i acc = Some r \<Longrightarrow> \<not> (sz < 0 \<and> i < int (length dat))"
  assume step: "(if i < int (length dat)
      then loop dat sz (i + sz)
            (if int (length (js_slice dat i (i + sz))) = sz
             then acc @ [mk_subgroup (js_slice dat i (i + sz)) sz]
             else acc)
      else Some acc) = Some r"
  show "\<not> (sz < 0 \<and> i < int (length dat))"
  proof
    assume a: "sz < 0 \<and> i < int (length dat)"
    then have "loop dat sz (i + sz)
            (if int (length (js_slice dat i (i + sz))) = sz
             then acc @ [mk_subgroup (js_slice dat i (i + sz)) sz]
             else acc) = Some r"
      using step by simp
    then have "\<not> (sz < 0 \<and> i + sz < int (length dat))" by (rule IH)
    then show False using a by simp
  qed
qed

lemma calculateSubgroups_diverges:
  assumes "sz < 0" "dat \<noteq> []"
  shows "calculateSubgroups dat sz = None"
proof (cases "calculateSubgroups dat sz")
  case None
  then show ?thesis .
next
  case (Some r)
  then have "\<not> (sz < 0 \<and> 0 < int (length dat))"
    unfolding calculateSubgroups_def by (rule calculateSubgroups_loop_never_returns)
  then show ?thesis using assms by simp
qed

lemma calculateSubgroups_empty: "calculateSubgroups [] sz = Some []"
  unfolding calculateSubgroups_def by (subst calculateSubgroups_loop.simps) simp

lemma constants_undefined: "n < 1 \<or> 5 < n \<Longrightarrow> constants n = None"
  by (auto simp: constants_def)

text \<open>
  Claim C5, amended. For every input whose sample size is outside 1 to 5, no analysis is
  returned: the constants of such a size cannot be read, so whenever the subgrouping
  returns, the handler ends with the message of its \<open>catch\<close> branch,
  ``Error analyzing data''. It does so when the size is 6 or more or there is no record;
  when the size is negative and there are records, the subgrouping never ends. The chart
  component takes the constants of size 1 for such a size. Nothing checks \<open>usl <= lsl\<close>.
\<close>

theorem invalid_sampleSize_returns_no_analysis:
  assumes "n < 1 \<or> 5 < n"
  shows "(\<forall>a. handleAnalyze fd n \<noteq> Some (Inr a))
         \<and> (5 < n \<or> fd = [] \<longrightarrow> handleAnalyze fd n = Some (Inl ''Error analyzing data''))
         \<and> (n < 0 \<and> fd \<noteq> [] \<longrightarrow> handleAnalyze fd n = None)
         \<and> ControlCharts_constants n = ControlCharts_constants 1"
proof -
  have c: "constants n = None" using assms by (rule constants_undefined)
  have body: "analysis_body fd n sgs = Inl TypeError" for sgs
    by (simp add: analysis_body_def c)
  have ret: "handleAnalyze fd n = Some (Inl ''Error analyzing data'')"
    if "calculateSubgroups (map ActualSpecification fd) n = Some sgs" for sgs
    using that by (simp add: handleAnalyze_def body)
  have big: "handleAnalyze fd n = Some (Inl ''Error analyzing data'')" if "5 < n"
  proof -
    have "1 \<le> n" using that by simp
    then show ?thesis using calculateSubgroups_windows ret by blast
  qed
  have empty: "handleAnalyze fd n = Some (Inl ''Error analyzing data'')" if "fd = []"
    using that ret [of "[]"] by (simp add: calculateSubgroups_empty)
  have div: "handleAnalyze fd n = None" if "n < 0" "fd \<noteq> []"
  proof -
    have "calculateSubgroups (map ActualSpecification fd) n = None"
      using that by (intro calculateSubgroups_diverges) simp_all
    then show ?thesis by (simp add: handleAnalyze_def)
  qed
  have none: "handleAnalyze fd n \<noteq> Some (Inr a)" for a
  proof (cases "calculateSubgroups (map ActualSpecification fd) n")
    case None
    then show ?thesis by (simp add: handleAnalyze_def)
  next
    case (Some sgs)
    then show ?thesis using ret by simp
  qed
  have c1: "constants 1 = Some \<lparr>A2 = rnd 1.880, D3 = Fin 0, D4 = rnd 3.267\<rparr>"
    by (simp add: constants_def)
  have cc: "ControlCharts_constants n = ControlCharts_constants 1"
    by (simp add: ControlCharts_constants_def c c1)
  show ?thesis using none big empty div cc by blast
qed

theorem invalid_sampleSize_returns_no_analysis_witness:
  "((6::int) < 1 \<or> 5 < (6::int))
   \<and> handleAnalyze [inspection 10 5 15, inspection 12 5 15] 6 = Some (Inl ''Error analyzing data'')
   \<and> ((- 1::int) < 1 \<or> 5 < (- 1::int))
   \<and> handleAnalyze [inspection 10 5 15, inspection 12 5 15] (- 1) = None"
  using invalid_sampleSize_returns_no_analysis [of 6 "[inspection 10 5 15, inspection 12 5 15]"]
    invalid_sampleSize_returns_no_analysis [of "- 1" "[inspection 10 5 15, inspection 12 5 15]"]
  by simp

text \<open>
  Claim C5 as stated fails for \<open>usl <= lsl\<close>: with \<open>lsl = 15\<close> and \<open>usl = 5\<close> the
  analysis is returned, with negative indices.
\<close>

theorem usl_below_lsl_counterexample:
  "map_option (map_sum id metrics)
     (handleAnalyze [inspection 10 15 5, inspection 12 15 5, inspection 11 15 5, inspection 13 15 5] 4)
   = Some (Inr \<lparr>xBar = Fin (23 / 2), stdDevOverall = Fin (3 / 2), stdDevWithin = Fin (3 / 2),
                 movingRange = Fin 3,
                 cp = rnd (- 1.1111), cpkUpper = rnd (- 1.4444), cpkLower = rnd (- 0.7778),
                 cpk = rnd (- 1.4444),
                 pp = rnd (- 1.1111), ppu = rnd (- 1.4444), ppl = rnd (- 0.7778),
                 ppk = rnd (- 1.4444),
                 lsl = Fin 15, usl = Fin 5\<rparr>)"
proof -
  let ?fd = "[inspection 10 15 5, inspection 12 15 5, inspection 11 15 5, inspection 13 15 5]"
  obtain a c where a: "handleAnalyze ?fd 4 = Some (Inr a)"
    "metrics a =
       capabilityMetrics 4
         (subgroupsMean (subgroups_of (map ActualSpecification ?fd) 4))
         (subgroupsRangeMean (subgroups_of (map ActualSpecification ?fd) 4))
         (FromSpecification (hd ?fd)) (ToSpecification (hd ?fd))"
    using handleAnalyze_returns [of 4 ?fd] by auto
  have "metrics a = \<lparr>xBar = Fin (23 / 2), stdDevOverall = Fin (3 / 2), stdDevWithin = Fin (3 / 2),
                 movingRange = Fin 3,
                 cp = rnd (- 1.1111), cpkUpper = rnd (- 1.4444), cpkLower = rnd (- 0.7778),
                 cpk = rnd (- 1.4444),
                 pp = rnd (- 1.1111), ppu = rnd (- 1.4444), ppl = rnd (- 0.7778),
                 ppk = rnd (- 1.4444),
                 lsl = Fin 15, usl = Fin 5\<rparr>"
    unfolding a(2) by (simp add: run_eval)
  then show ?thesis by (simp add: a(1))
qed

text \<open>
  Claim C6, amended. For an empty measurement sequence \<open>handleAnalyze\<close> returns no
  analysis but the message of its \<open>catch\<close> branch, ``Error analyzing data'', for every
  sample size: the subgrouping returns no subgroup, and reading the constants or the first
  record fails. The histogram binner itself raises nothing on an empty sequence: it returns
  no bin and \<open>numberOfBins = 0\<close>.
\<close>

theorem empty_measurements_generic_error:
  "handleAnalyze [] n = Some (Inl ''Error analyzing data'')
   \<and> calculateSubgroups [] n = Some []
   \<and> calculateDistributionData [] = Inr \<lparr>data = [], numberOfBins = Fin 0\<rparr>"
proof -
  have "analysis_body [] n [] = Inl TypeError"
    by (simp add: analysis_body_def split: option.splits)
  then have "handleAnalyze [] n = Some (Inl ''Error analyzing data'')"
    by (simp add: handleAnalyze_def calculateSubgroups_empty)
  moreover have "calculateDistributionData [] = Inr \<lparr>data = [], numberOfBins = Fin 0\<rparr>"
    by (simp add: calculateDistributionData_def new_Array_def rnd_zero)
  ultimately show ?thesis by (simp add: calculateSubgroups_empty)
qed

text \<open>
  Claim C6 as stated fails when there are measurements but no complete subgroup: one
  measurement with sample size 2 returns an analysis whose limits and \<open>cp\<close> are NaN.
\<close>

theorem no_complete_subgroup_counterexample:
  "map_option (map_sum id (limits \<circ> controlCharts)) (handleAnalyze [inspection 10 5 15] 2)
   = Some (Inr \<lparr>xBarUcl = NaN, xBarLcl = NaN, xBarMean = NaN,
                 rangeUcl = NaN, rangeLcl = NaN, rangeMean = NaN\<rparr>)
   \<and> map_option (map_sum id (cp \<circ> metrics)) (handleAnalyze [inspection 10 5 15] 2)
     = Some (Inr NaN)"
proof -
  let ?fd = "[inspection 10 5 15]"
  obtain a c where a: "handleAnalyze ?fd 2 = Some (Inr a)"
    "metrics a =
       capabilityMetrics 2
         (subgroupsMean (subgroups_of (map ActualSpecification ?fd) 2))
         (subgroupsRangeMean (subgroups_of (map ActualSpecification ?fd) 2))
         (FromSpecification (hd ?fd)) (ToSpecification (hd ?fd))"
    "limits (controlCharts a) = controlLimits c (subgroups_of (map ActualSpecification ?fd) 2)"
    using handleAnalyze_returns [of 2 ?fd] by auto
  have sg: "subgroups_of (map ActualSpecification ?fd) 2 = []"
    by (simp add: subgroups_of_def windows_def)
  have m: "subgroupsMean [] = NaN" "subgroupsRangeMean [] = NaN"
    by (simp_all add: subgroupsMean_def subgroupsRangeMean_def)
  have l: "limits (controlCharts a) = \<lparr>xBarUcl = NaN, xBarLcl = NaN, xBarMean = NaN,
                 rangeUcl = NaN, rangeLcl = NaN, rangeMean = NaN\<rparr>"
    unfolding a(3) sg by (simp add: controlLimits_def m js_sub_def js_mul_NaN_right)
  have k: "cp (metrics a) = NaN"
    unfolding a(2) sg
    by (simp add: capabilityMetrics_def estimate_stdDev_def m Let_def js_mul_NaN_right js_div_NaN_right)
  show ?thesis by (simp add: a(1) l k)
qed

section \<open>Scenario A\<close>

text \<open>
  Claim C3. The measurements \<open>10, 12, 11, 13, 9, 11, 10, 12\<close> with sample size 2 give
  the subgroups with (mean, range) \<open>(11, 2), (12, 2), (10, 2), (11, 2)\<close>, \<open>xBarMean = 11\<close>
  and \<open>rangeMean = 2\<close>, and with \<open>A2 = 1.023\<close> the limits \<open>xBarUcl = 13.046\<close> and
  \<open>xBarLcl = 8.954\<close>, whatever the specification limits of the records. (A decimal such
  as \<open>13.046\<close> is the double nearest to it, \<open>rnd 13.046\<close>.)
\<close>

theorem scenario_A:
  "calculateSubgroups (map Fin [10, 12, 11, 13, 9, 11, 10, 12]) 2
     = Some [\<lparr>mean = Fin 11, range_sg = Fin 2\<rparr>, \<lparr>mean = Fin 12, range_sg = Fin 2\<rparr>,
             \<lparr>mean = Fin 10, range_sg = Fin 2\<rparr>, \<lparr>mean = Fin 11, range_sg = Fin 2\<rparr>]
   \<and> map_option A2 (constants 2) = Some (rnd 1.023)
   \<and> map_option (map_sum id (limits \<circ> controlCharts))
        (handleAnalyze (map (\<lambda>v. \<lparr>ActualSpecification = Fin v, FromSpecification = l, ToSpecification = u\<rparr>)
           [10, 12, 11, 13, 9, 11, 10, 12]) 2)
     = Some (Inr \<lparr>xBarUcl = rnd 13.046, xBarLcl = rnd 8.954, xBarMean = Fin 11,
                   rangeUcl = rnd 6.534, rangeLcl = Fin 0, rangeMean = Fin 2\<rparr>)
   \<and> map_option (map_sum id (xBarData \<circ> controlCharts))
        (handleAnalyze (map (\<lambda>v. \<lparr>ActualSpecification = Fin v, FromSpecification = l, ToSpecification = u\<rparr>)
           [10, 12, 11, 13, 9, 11, 10, 12]) 2)
     = Some (Inr [(Fin 1, Fin 11), (Fin 2, Fin 12), (Fin 3, Fin 10), (Fin 4, Fin 11)])
   \<and> map_option (map_sum id (rangeData \<circ> controlCharts))
        (handleAnalyze (map (\<lambda>v. \<lparr>ActualSpecification = Fin v, FromSpecification = l, ToSpecification = u\<rparr>)
           [10, 12, 11, 13, 9, 11, 10, 12]) 2)
     = Some (Inr [(Fin 1, Fin 2), (Fin 2, Fin 2), (Fin 3, Fin 2), (Fin 4, Fin 2)])"
proof -
  let ?fd = "map (\<lambda>v. \<lparr>ActualSpecification = Fin v, FromSpecification = l, ToSpecification = u\<rparr>)
           [10, 12, 11, 13, 9, 11, 10, 12]"
  let ?sgs = "[\<lparr>mean = Fin 11, range_sg = Fin 2\<rparr>, \<lparr>mean = Fin 12, range_sg = Fin 2\<rparr>,
             \<lparr>mean = Fin 10, range_sg = Fin 2\<rparr>, \<lparr>mean = Fin 11, range_sg = Fin 2\<rparr>]"
  have specs: "map ActualSpecification ?fd = map Fin [10, 12, 11, 13, 9, 11, 10, 12]"
    by simp
  have sg: "subgroups_of (map Fin [10, 12, 11, 13, 9, 11, 10, 12]) 2 = ?sgs"
    by (simp add: pipeline_eval)
  have cs: "calculateSubgroups (map Fin [10, 12, 11, 13, 9, 11, 10, 12]) 2 = Some ?sgs"
    using calculateSubgroups_windows [of 2 "map Fin [10, 12, 11, 13, 9, 11, 10, 12]"] sg
    by (simp add: subgroups_of_def)
  have c2: "constants 2 = Some \<lparr>A2 = rnd 1.023, D3 = Fin 0, D4 = rnd 3.267\<rparr>"
    by (simp add: constants_def)
  obtain a c where a: "handleAnalyze ?fd 2 = Some (Inr a)" "constants 2 = Some c"
    "limits (controlCharts a) = controlLimits c (subgroups_of (map ActualSpecification ?fd) 2)"
    "xBarData (controlCharts a) = chart_points (map mean (subgroups_of (map ActualSpecification ?fd) 2))"
    "rangeData (controlCharts a) = chart_points (map range_sg (subgroups_of (map ActualSpecification ?fd) 2))"
    using handleAnalyze_returns [of 2 ?fd] by auto
  have c: "c = \<lparr>A2 = rnd 1.023, D3 = Fin 0, D4 = rnd 3.267\<rparr>" using a(2) c2 by simp
  have lim: "controlLimits \<lparr>A2 = rnd 1.023, D3 = Fin 0, D4 = rnd 3.267\<rparr> ?sgs
      = \<lparr>xBarUcl = rnd 13.046, xBarLcl = rnd 8.954, xBarMean = Fin 11,
                   rangeUcl = rnd 6.534, rangeLcl = Fin 0, rangeMean = Fin 2\<rparr>"
    by (simp add: controlLimits_def subgroupsMean_def subgroupsRangeMean_def Let_def js_eval)
  have l: "limits (controlCharts a) = \<lparr>xBarUcl = rnd 13.046, xBarLcl = rnd 8.954, xBarMean = Fin 11,
                   rangeUcl = rnd 6.534, rangeLcl = Fin 0, rangeMean = Fin 2\<rparr>"
    unfolding a(3) specs sg c by (rule lim)
  have xs: "xBarData (controlCharts a) = [(Fin 1, Fin 11), (Fin 2, Fin 12), (Fin 3, Fin 10), (Fin 4, Fin 11)]"
    unfolding a(4) specs sg by (simp add: chart_points_def upt_conv_Cons)
  have rs: "rangeData (controlCharts a) = [(Fin 1, Fin 2), (Fin 2, Fin 2), (Fin 3, Fin 2), (Fin 4, Fin 2)]"
    unfolding a(5) specs sg by (simp add: chart_points_def upt_conv_Cons)
  show ?thesis unfolding a(1) using cs by (simp add: c2 l xs rs)
qed

section \<open>A complete run\<close>

text \<open>
  The whole result of \<open>handleAnalyze\<close> for the four measurements \<open>10.02\<close>, \<open>9.98\<close>,
  \<open>10.05\<close>, \<open>9.97\<close> with \<open>lsl = 9.9\<close>, \<open>usl = 10.1\<close> and sample size 4, every
  number written as the exact value of its double: \<open>xBar = 10.005\<close>,
  \<open>stdDev = 0.04\<close>, \<open>cp = 0.8333\<close>, \<open>cpk = 0.7917\<close>, the limits
  \<open>10.0512\<close> and \<open>9.9588\<close>, and two bins of two measurements each.
\<close>

lemma handleAnalyze_complete_run:
  "handleAnalyze
     [\<lparr>ActualSpecification = rnd 10.02, FromSpecification = rnd 9.9, ToSpecification = rnd 10.1\<rparr>,
      \<lparr>ActualSpecification = rnd 9.98, FromSpecification = rnd 9.9, ToSpecification = rnd 10.1\<rparr>,
      \<lparr>ActualSpecification = rnd 10.05, FromSpecification = rnd 9.9, ToSpecification = rnd 10.1\<rparr>,
      \<lparr>ActualSpecification = rnd 9.97, FromSpecification = rnd 9.9, ToSpecification = rnd 10.1\<rparr>] 4
   = Some (Inr
      \<lparr>metrics =
         \<lparr>xBar = Fin (5632314283980227 / 562949953421312),
          stdDevOverall = Fin (5764607523034235 / 144115188075855872),
          stdDevWithin = Fin (5764607523034235 / 144115188075855872),
          movingRange = Fin (5764607523034235 / 72057594037927936),
          cp = Fin (7505699138975669 / 9007199254740992),
          cpkUpper = Fin (7130999649978443 / 9007199254740992),
          cpkLower = Fin (7 / 8),
          cpk = Fin (7130999649978443 / 9007199254740992),
          pp = Fin (7505699138975669 / 9007199254740992),
          ppu = Fin (7130999649978443 / 9007199254740992),
          ppl = Fin (7 / 8),
          ppk = Fin (7130999649978443 / 9007199254740992),
          lsl = Fin (5573204538870989 / 562949953421312),
          usl = Fin (5685794529555251 / 562949953421312)\<rparr>,
       controlCharts =
         \<lparr>xBarData = [(Fin 1, Fin (5632314283980227 / 562949953421312))],
          rangeData = [(Fin 1, Fin (45035996273705 / 562949953421312))],
          limits =
            \<lparr>xBarUcl = Fin (5658322571828291 / 562949953421312),
             xBarLcl = Fin (2803152998066081 / 281474976710656),
             xBarMean = Fin (5632314283980227 / 562949953421312),
             rangeUcl = Fin (6578858335662821 / 36028797018963968),
             rangeLcl = Fin 0,
             rangeMean = Fin (5764607523034235 / 72057594037927936)\<rparr>\<rparr>,
       distribution =
         \<lparr>data = [(Fin (5623870034678907 / 562949953421312), 2),
                  (Fin (352899252050985 / 35184372088832), 2)],
          numberOfBins = Fin 2,
          stats =
            \<lparr>mean_stats = Fin (5632314283980227 / 562949953421312),
             stdDev = Fin (5764607523034235 / 144115188075855872),
             target = Fin 10\<rparr>\<rparr>\<rparr>)"
proof -
  have cs: "calculateSubgroups xs 4 = Some (subgroups_of xs 4)" for xs
    using calculateSubgroups_windows [of 4 xs] by (simp add: subgroups_of_def)
  show ?thesis
    by (simp add: handleAnalyze_def cs analysis_body_def constants_def controlLimits_def
        calculateDistributionData_def new_Array_def binIndex_of_def increment_def
        numeral_2_eq_2 run_eval)
qed

end
